theory Spec2Isabelle
  imports Complex_Main "HOL-Library.Sublist"
begin

section \<open>Strings and the regular expressions of \<^verbatim>\<open>utils.tsx\<close>\<close>

text \<open>
  A JavaScript string is modelled as a \<^typ>\<open>string\<close>: a list of code units, here the
  code units below 256. In that range the line terminators that \<^verbatim>\<open>.\<close> refuses
  are line feed and carriage return (U+2028 and U+2029 are beyond it).

  Each regular expression of the source is a literal with anchors, fixed character classes
  and at most one greedy repetition per position, so it is written out as the function
  that \<^verbatim>\<open>RegExp.prototype.exec\<close> computes for it: \<^verbatim>\<open>None\<close> is JavaScript's
  \<^verbatim>\<open>null\<close>, and the result holds the capture groups.
\<close>

text \<open>A class range \<^verbatim>\<open>lo-hi\<close> compares code units.\<close>

definition inRange :: "char \<Rightarrow> char \<Rightarrow> char \<Rightarrow> bool" where
  "inRange lo hi c \<longleftrightarrow> (of_char lo :: nat) \<le> of_char c \<and> (of_char c :: nat) \<le> of_char hi"

text \<open>\<^verbatim>\<open>[a-fA-F0-9]\<close>\<close>

definition isHexDigit :: "char \<Rightarrow> bool" where
  "isHexDigit c \<longleftrightarrow>
     inRange CHR ''a'' CHR ''f'' c \<or> inRange CHR ''A'' CHR ''F'' c \<or> inRange CHR ''0'' CHR ''9'' c"

text \<open>\<^verbatim>\<open>[0-9]\<close>\<close>

definition isDigit :: "char \<Rightarrow> bool" where
  "isDigit c \<longleftrightarrow> inRange CHR ''0'' CHR ''9'' c"

text \<open>\<^verbatim>\<open>[1-9A-HJ-NP-Za-km-z]\<close>\<close>

definition isBase58 :: "char \<Rightarrow> bool" where
  "isBase58 c \<longleftrightarrow>
     inRange CHR ''1'' CHR ''9'' c \<or> inRange CHR ''A'' CHR ''H'' c \<or> inRange CHR ''J'' CHR ''N'' c \<or>
     inRange CHR ''P'' CHR ''Z'' c \<or> inRange CHR ''a'' CHR ''k'' c \<or> inRange CHR ''m'' CHR ''z'' c"

text \<open>The characters \<^verbatim>\<open>.\<close> does not match (no \<^verbatim>\<open>s\<close> flag).\<close>

definition isLineTerminator :: "char \<Rightarrow> bool" where
  "isLineTerminator c \<longleftrightarrow> c = CHR 0x0A \<or> c = CHR 0x0D"

text \<open>Matching a run of literal characters at the current position; the rest is returned.\<close>

fun stripPrefix :: "string \<Rightarrow> string \<Rightarrow> string option" where
  "stripPrefix [] s = Some s"
| "stripPrefix (p # ps) [] = None"
| "stripPrefix (p # ps) (c # cs) = (if p = c then stripPrefix ps cs else None)"

subsection \<open>Addresses and marketplace URLs\<close>

text \<open>\<^verbatim>\<open>/^0x[a-fA-F0-9]{40}$/.test(value)\<close>\<close>

definition isAddress :: "string \<Rightarrow> bool" where
  "isAddress v =
     (case stripPrefix ''0x'' v of
        None \<Rightarrow> False
      | Some hex \<Rightarrow> length hex = 40 \<and> list_all isHexDigit hex)"

text \<open>
  \<^verbatim>\<open>/^https:\/\/rarible\.com\/token\/(0x[a-fA-F0-9]{40}):([0-9]+)/\<close>, with no anchor at the
  end: after the literal prefix come \<^verbatim>\<open>0x\<close>, exactly 40 hexadecimal digits, a colon and
  the longest non-empty run of decimal digits (the repetition is greedy and nothing follows
  it). The result holds groups 1 and 2.
\<close>

definition RARIBLE_MATCH_RE :: "string \<Rightarrow> (string \<times> string) option" where
  "RARIBLE_MATCH_RE url =
     (case stripPrefix ''https://rarible.com/token/'' url of
        None \<Rightarrow> None
      | Some r1 \<Rightarrow>
          (case stripPrefix ''0x'' r1 of
             None \<Rightarrow> None
           | Some r2 \<Rightarrow>
               if length (take 40 r2) = 40 \<and> list_all isHexDigit (take 40 r2) then
                 (case stripPrefix '':'' (drop 40 r2) of
                    None \<Rightarrow> None
                  | Some r3 \<Rightarrow>
                      if takeWhile isDigit r3 = [] then None
                      else Some (''0x'' @ take 40 r2, takeWhile isDigit r3))
               else None))"

definition parseNftUrl :: "string \<Rightarrow> (string \<times> string) option" where
  "parseNftUrl url =
     (case RARIBLE_MATCH_RE url of
        Some (g1, g2) \<Rightarrow> Some (g1, g2)
      | None \<Rightarrow> None)"

subsection \<open>IPFS locators\<close>

text \<open>
  The gateway builder takes the CID and an optional path
  (\<^verbatim>\<open>(cid: string, path?: string) => string\<close>); the default one reads a missing path
  as the empty string.
\<close>

type_synonym IpfsUrlBuilder = "string \<Rightarrow> string option \<Rightarrow> string"

definition ipfsUrlDefault :: IpfsUrlBuilder where
  "ipfsUrlDefault cid path =
     ''https://ipfs.io/ipfs/'' @ cid @ (case path of None \<Rightarrow> [] | Some p \<Rightarrow> p)"

text \<open>
  \<^verbatim>\<open>/^ipfs:\/\/ipfs\/([^/]+)(\/.+)?$/\<close>. Group 1 cannot hold a slash, so it is the
  longest slash-free run after the prefix and must not be empty. What follows is either
  the end of the input (group 2 is undefined), or a slash and at least one more character,
  none of them a line terminator, up to the end of the input (group 2). A shorter group 1
  never helps: it would be followed by a character that is neither a slash nor the end.
\<close>

definition IPFS_PROTOCOL_RE :: "string \<Rightarrow> (string \<times> string option) option" where
  "IPFS_PROTOCOL_RE url =
     (case stripPrefix ''ipfs://ipfs/'' url of
        None \<Rightarrow> None
      | Some r \<Rightarrow>
          (let cid = takeWhile (\<lambda>c. c \<noteq> CHR ''/'') r;
               rest = dropWhile (\<lambda>c. c \<noteq> CHR ''/'') r
           in if cid = [] then None
              else if rest = [] then Some (cid, None)
              else if tl rest \<noteq> [] \<and> list_all (\<lambda>c. \<not> isLineTerminator c) (tl rest)
                then Some (cid, Some rest)
              else None))"

text \<open>\<^verbatim>\<open>/^Qm[1-9A-HJ-NP-Za-km-z]{44}$/.test(url)\<close>\<close>

definition IPFS_HASH_RE :: "string \<Rightarrow> bool" where
  "IPFS_HASH_RE url =
     (case stripPrefix ''Qm'' url of
        None \<Rightarrow> False
      | Some h \<Rightarrow> length h = 44 \<and> list_all isBase58 h)"

text \<open>
  \<^verbatim>\<open>ipfsUrl(url, ipfsUrl = ipfsUrlDefault)\<close>. In the protocol branch the builder gets
  group 1 and group 2, the latter replaced by the empty string when it is undefined
  (\<^verbatim>\<open>const [, cid, path = ""] = ipfsProtocolMatch\<close>); in the hash branch it gets the
  whole string and no path.
\<close>

definition ipfsUrl :: "string \<Rightarrow> IpfsUrlBuilder \<Rightarrow> string" where
  "ipfsUrl url builder =
     (case IPFS_PROTOCOL_RE url of
        Some (cid, g2) \<Rightarrow> builder cid (Some (case g2 of None \<Rightarrow> [] | Some p \<Rightarrow> p))
      | None \<Rightarrow> if IPFS_HASH_RE url then builder url None else url)"

definition normalizeImageUrl :: "string \<Rightarrow> string" where
  "normalizeImageUrl url = ipfsUrl url ipfsUrlDefault"

text \<open>
  The shape that the specification of \<^verbatim>\<open>parseNftUrl\<close> describes: a
  0x-prefixed 40-hex-digit address and a token id of at least one decimal digit, inside a
  URL \<^verbatim>\<open>https://<hostname>/token/<address>:<id><rest>\<close>.
\<close>

definition raribleShape :: "string \<Rightarrow> string \<Rightarrow> bool" where
  "raribleShape addr tid \<longleftrightarrow> isAddress addr \<and> tid \<noteq> [] \<and> list_all isDigit tid"

definition raribleUrl :: "string \<Rightarrow> string \<Rightarrow> string \<Rightarrow> string \<Rightarrow> string" where
  "raribleUrl hostname addr tid rest = ''https://'' @ hostname @ ''/token/'' @ addr @ '':'' @ tid @ rest"

text \<open>
  The two address forms that the specification of \<^verbatim>\<open>ipfsUrl\<close> describes. A locator is
  \<^verbatim>\<open>ipfs://ipfs/<cid>\<close> followed by an optional \<^verbatim>\<open>/<path>\<close>: the CID is a non-empty
  run without a slash, the path suffix a slash and a non-empty run without a line
  terminator. A bare CID is \<^verbatim>\<open>Qm\<close> followed by exactly 44 base58 characters.
\<close>

definition isPathSuffix :: "string \<Rightarrow> bool" where
  "isPathSuffix path \<longleftrightarrow>
     (\<exists>p. path = CHR ''/'' # p \<and> p \<noteq> [] \<and> (\<forall>c \<in> set p. \<not> isLineTerminator c))"

definition isIpfsLocator :: "string \<Rightarrow> string \<Rightarrow> string \<Rightarrow> bool" where
  "isIpfsLocator url cid path \<longleftrightarrow>
     url = ''ipfs://ipfs/'' @ cid @ path \<and> cid \<noteq> [] \<and> CHR ''/'' \<notin> set cid \<and>
     (path = [] \<or> isPathSuffix path)"

definition isBareCid :: "string \<Rightarrow> bool" where
  "isBareCid url \<longleftrightarrow> (\<exists>h. url = ''Qm'' @ h \<and> length h = 44 \<and> (\<forall>c \<in> set h. isBase58 c))"

section \<open>Address comparison\<close>

text \<open>
  \<^verbatim>\<open>addressesEqual\<close> is declared on two addresses, and written for arguments that may be
  \<^verbatim>\<open>null\<close> or \<^verbatim>\<open>undefined\<close> at run time.
\<close>

datatype 'a nullable = Null | Undefined | Present 'a

definition isNullLike :: "'a nullable \<Rightarrow> bool" where
  "isNullLike x \<longleftrightarrow> x = Null \<or> x = Undefined"

text \<open>
  \<^verbatim>\<open>String.prototype.toLowerCase\<close> on code units below 256: the letters \<^verbatim>\<open>A\<close> to
  \<^verbatim>\<open>Z\<close> and the capital letters of Latin-1 (U+00C0 to U+00DE, without the multiplication
  sign U+00D7) move up by 32; the other code units are left as they are.
\<close>

definition toLowerCase :: "string \<Rightarrow> string" where
  "toLowerCase s =
     map (\<lambda>c. if inRange CHR ''A'' CHR ''Z'' c \<or> inRange (CHR 0xC0) (CHR 0xD6) c \<or>
                 inRange (CHR 0xD8) (CHR 0xDE) c
              then char_of (of_char c + (32 :: nat)) else c) s"

text \<open>
  Optional chaining \<^verbatim>\<open>x?.m()\<close>: \<^verbatim>\<open>undefined\<close> (here \<^verbatim>\<open>None\<close>) when \<^verbatim>\<open>x\<close> is
  \<^verbatim>\<open>null\<close> or \<^verbatim>\<open>undefined\<close>, the result of the call otherwise. It never throws.
\<close>

fun optionalCall :: "'a nullable \<Rightarrow> ('a \<Rightarrow> 'b) \<Rightarrow> 'b option" where
  "optionalCall Null m = None"
| "optionalCall Undefined m = None"
| "optionalCall (Present x) m = Some (m x)"

text \<open>
  \<^verbatim>\<open>addr1?.toLowerCase() === addr2?.toLowerCase()\<close>: strict equality of two values that
  are each a string or \<^verbatim>\<open>undefined\<close>.
\<close>

definition addressesEqual :: "string nullable \<Rightarrow> string nullable \<Rightarrow> bool" where
  "addressesEqual addr1 addr2 \<longleftrightarrow> optionalCall addr1 toLowerCase = optionalCall addr2 toLowerCase"

section \<open>Promises\<close>

text \<open>
  A promise that settles is modelled by its outcome and the time at which it settles;
  among promises that settle at the same time, reactions run in the order of the list.
  The operations given to \<^verbatim>\<open>promiseAny\<close> are such promises.
\<close>

datatype ('a, 'e) settled = Fulfilled 'a | Rejected 'e

type_synonym ('a, 'e) promise = "nat \<times> ('a, 'e) settled"

text \<open>
  \<^verbatim>\<open>new Promise((resolve, reject) => Promise.resolve(promise).then(reject, resolve))\<close>:
  a fulfilment becomes a rejection with the same value and a rejection a fulfilment.
\<close>

fun reversePromise :: "('a, 'e) promise \<Rightarrow> ('e, 'a) promise" where
  "reversePromise (t, Fulfilled v) = (t, Rejected v)"
| "reversePromise (t, Rejected e) = (t, Fulfilled e)"

text \<open>
  \<^verbatim>\<open>Promise.all\<close> rejects with the reason of the first of its promises to reject, and
  otherwise fulfils, once the last one has, with the list of their values in the order of
  the input; on the empty list it fulfils with the empty list.
\<close>

fun firstRejection :: "('a, 'e) promise list \<Rightarrow> (nat \<times> 'e) option" where
  "firstRejection [] = None"
| "firstRejection ((t, Fulfilled v) # ps) = firstRejection ps"
| "firstRejection ((t, Rejected e) # ps) =
     (case firstRejection ps of
        None \<Rightarrow> Some (t, e)
      | Some (t', e') \<Rightarrow> if t' < t then Some (t', e') else Some (t, e))"

fun fulfilledValues :: "('a, 'e) promise list \<Rightarrow> 'a list" where
  "fulfilledValues [] = []"
| "fulfilledValues ((t, Fulfilled v) # ps) = v # fulfilledValues ps"
| "fulfilledValues ((t, Rejected e) # ps) = fulfilledValues ps"

definition Promise_all :: "('a, 'e) promise list \<Rightarrow> ('a list, 'e) promise" where
  "Promise_all ps =
     (case firstRejection ps of
        Some (t, e) \<Rightarrow> (t, Rejected e)
      | None \<Rightarrow> (fold max (map fst ps) 0, Fulfilled (fulfilledValues ps)))"

text \<open>
  \<^verbatim>\<open>reversePromise(Promise.all([...promises].map(reversePromise)))\<close>
\<close>

definition promiseAny :: "('a, 'e) promise list \<Rightarrow> ('a, 'e list) promise" where
  "promiseAny promises = reversePromise (Promise_all (map reversePromise promises))"

text \<open>Whether an operation succeeded or failed.\<close>

fun isFulfilled :: "('a, 'e) promise \<Rightarrow> bool" where
  "isFulfilled (t, Fulfilled v) = True"
| "isFulfilled (t, Rejected e) = False"

fun isRejected :: "('a, 'e) promise \<Rightarrow> bool" where
  "isRejected (t, Fulfilled v) = False"
| "isRejected (t, Rejected e) = True"

section \<open>Metadata\<close>

text \<open>
  The values that data of type \<^verbatim>\<open>unknown\<close> can be after \<^verbatim>\<open>JSON.parse\<close>, and
  \<^verbatim>\<open>undefined\<close>. An object is the list of its keys and values, each key once: reading a
  key looks it up with \<^const>\<open>map_of\<close>.
\<close>

datatype jsval =
    JUndefined
  | JNull
  | JBool bool
  | JNum real
  | JStr string
  | JArr "jsval list"
  | JObj "(string \<times> jsval) list"

datatype error = TypeError

fun typeof :: "jsval \<Rightarrow> string" where
  "typeof JUndefined = ''undefined''"
| "typeof JNull = ''object''"
| "typeof (JBool b) = ''boolean''"
| "typeof (JNum n) = ''number''"
| "typeof (JStr s) = ''string''"
| "typeof (JArr vs) = ''object''"
| "typeof (JObj kvs) = ''object''"

text \<open>What \<^verbatim>\<open>!\<close>, \<^verbatim>\<open>&&\<close> and \<^verbatim>\<open>||\<close> test.\<close>

fun truthy :: "jsval \<Rightarrow> bool" where
  "truthy JUndefined = False"
| "truthy JNull = False"
| "truthy (JBool b) = b"
| "truthy (JNum n) = (n \<noteq> 0)"
| "truthy (JStr s) = (s \<noteq> [])"
| "truthy (JArr vs) = True"
| "truthy (JObj kvs) = True"

text \<open>
  Property access \<^verbatim>\<open>v.k\<close> throws on \<^verbatim>\<open>null\<close> and \<^verbatim>\<open>undefined\<close>. On an object it
  is the value stored under the key, or \<^verbatim>\<open>undefined\<close>; on the other values it is
  \<^verbatim>\<open>undefined\<close> for every key this module reads (\<^verbatim>\<open>title\<close>, \<^verbatim>\<open>type\<close>,
  \<^verbatim>\<open>properties\<close>, \<^verbatim>\<open>name\<close>, \<^verbatim>\<open>image\<close>, \<^verbatim>\<open>description\<close>), none of which
  a string, a number, a boolean or an array has.
\<close>

fun member :: "jsval \<Rightarrow> string \<Rightarrow> error + jsval" where
  "member JUndefined k = Inl TypeError"
| "member JNull k = Inl TypeError"
| "member (JObj kvs) k = Inr (case map_of kvs k of None \<Rightarrow> JUndefined | Some v \<Rightarrow> v)"
| "member v k = Inr JUndefined"

text \<open>Optional chaining \<^verbatim>\<open>v?.k\<close>.\<close>

definition optionalMember :: "jsval \<Rightarrow> string \<Rightarrow> error + jsval" where
  "optionalMember v k = (if v = JUndefined \<or> v = JNull then Inr JUndefined else member v k)"

text \<open>Sequencing of evaluations that may throw.\<close>

definition bindE :: "error + 'a \<Rightarrow> ('a \<Rightarrow> error + 'b) \<Rightarrow> error + 'b" where
  "bindE x f = (case x of Inl e \<Rightarrow> Inl e | Inr v \<Rightarrow> f v)"

text \<open>\<^verbatim>\<open>a && b\<close> on two tests: \<^verbatim>\<open>b\<close> is evaluated only when \<^verbatim>\<open>a\<close> holds.\<close>

definition andE :: "error + bool \<Rightarrow> error + bool \<Rightarrow> error + bool" where
  "andE a b = bindE a (\<lambda>r. if r then b else Inr False)"

text \<open>A chain \<^verbatim>\<open>v?.k1?.k2\<close>\<dots> of optional accesses.\<close>

fun optionalPath :: "jsval \<Rightarrow> string list \<Rightarrow> error + jsval" where
  "optionalPath v [] = Inr v"
| "optionalPath v (k # ks) = bindE (optionalMember v k) (\<lambda>w. optionalPath w ks)"

text \<open>\<^verbatim>\<open>_data.properties?.k?.f\<close>: the first access is a plain one.\<close>

definition schemaField :: "jsval \<Rightarrow> string \<Rightarrow> string \<Rightarrow> error + jsval" where
  "schemaField data k f = bindE (member data ''properties'') (\<lambda>p. optionalPath p [k, f])"

text \<open>
  \<^verbatim>\<open>isNftMetadataMixedInJsonSchema(data: unknown)\<close>. The comparisons \<^verbatim>\<open>===\<close> are with
  string literals, which only the same string equals.
\<close>

definition isNftMetadataMixedInJsonSchema :: "jsval \<Rightarrow> error + bool" where
  "isNftMetadataMixedInJsonSchema data =
     (if \<not> truthy data \<or> typeof data \<noteq> ''object'' then Inr False
      else
        andE (bindE (member data ''title'') (\<lambda>v. Inr (v = JStr ''Asset Metadata'')))
       (andE (bindE (member data ''type'') (\<lambda>v. Inr (v = JStr ''object'')))
       (andE (bindE (schemaField data ''name'' ''description'') (\<lambda>v. Inr (typeof v = ''string'')))
       (andE (bindE (schemaField data ''image'' ''description'') (\<lambda>v. Inr (typeof v = ''string'')))
       (andE (bindE (schemaField data ''description'' ''description'') (\<lambda>v. Inr (typeof v = ''string'')))
       (andE (bindE (schemaField data ''name'' ''type'') (\<lambda>v. Inr (v = JStr ''string'')))
       (andE (bindE (schemaField data ''image'' ''type'') (\<lambda>v. Inr (v = JStr ''string'')))
             (bindE (schemaField data ''description'' ''type'') (\<lambda>v. Inr (v = JStr ''string''))))))))))"

text \<open>
  Modelled from the spec: the type \<^verbatim>\<open>NftMetadata\<close> is declared in \<^verbatim>\<open>./types\<close>, which
  is not among the sources: a record with at least the three fields \<^verbatim>\<open>name\<close>,
  \<^verbatim>\<open>description\<close> and \<^verbatim>\<open>image\<close>, and any further fields in the extension of the
  record. The fields are declared as strings; \<^typ>\<open>'v\<close> is what they hold at run time,
  \<^typ>\<open>jsval\<close> where the code builds the record from data of unknown shape.
\<close>

record 'v NftMetadata =
  name :: 'v
  description :: 'v
  image' :: 'v

text \<open>\<^verbatim>\<open>a || b\<close>\<close>

definition logicalOr :: "jsval \<Rightarrow> jsval \<Rightarrow> jsval" where
  "logicalOr a b = (if truthy a then a else b)"

text \<open>
  \<^verbatim>\<open>fixNftMetadataMixedInJsonSchema\<close>: each field is
  \<^verbatim>\<open>data?.properties?.<field>?.description || ""\<close>.
\<close>

definition fixNftMetadataMixedInJsonSchema :: "jsval \<Rightarrow> error + jsval NftMetadata" where
  "fixNftMetadataMixedInJsonSchema data =
     bindE (optionalPath data [''properties'', ''name'', ''description'']) (\<lambda>n.
     bindE (optionalPath data [''properties'', ''description'', ''description'']) (\<lambda>d.
     bindE (optionalPath data [''properties'', ''image'', ''description'']) (\<lambda>i.
       Inr \<lparr>name = logicalOr n (JStr ''''),
            description = logicalOr d (JStr ''''),
            image' = logicalOr i (JStr '''')\<rparr>)))"

text \<open>
  \<^verbatim>\<open>normalizeNftMetadata\<close>: \<^verbatim>\<open>{...data, image: normalizeImageUrl(data.image)}\<close> on a
  record of the declared type.
\<close>

definition normalizeNftMetadata :: "(string, 'm) NftMetadata_scheme \<Rightarrow> (string, 'm) NftMetadata_scheme" where
  "normalizeNftMetadata data = data\<lparr>image' := normalizeImageUrl (image' data)\<rparr>"

text \<open>
  The schema shape in the words of the specification: an object whose \<^verbatim>\<open>title\<close> is
  \<^verbatim>\<open>"Asset Metadata"\<close>, whose \<^verbatim>\<open>type\<close> is \<^verbatim>\<open>"object"\<close>, and whose
  \<^verbatim>\<open>properties\<close> holds \<^verbatim>\<open>name\<close>, \<^verbatim>\<open>image\<close> and \<^verbatim>\<open>description\<close>, each with
  \<^verbatim>\<open>type\<close> \<^verbatim>\<open>"string"\<close> and a string \<^verbatim>\<open>description\<close>.
\<close>

definition hasStringSchema :: "(string \<times> jsval) list \<Rightarrow> string \<Rightarrow> bool" where
  "hasStringSchema props k \<longleftrightarrow>
     (\<exists>fs d. map_of props k = Some (JObj fs) \<and>
        map_of fs ''type'' = Some (JStr ''string'') \<and> map_of fs ''description'' = Some (JStr d))"

definition isSchemaShaped :: "jsval \<Rightarrow> bool" where
  "isSchemaShaped data \<longleftrightarrow>
     (\<exists>kvs props. data = JObj kvs \<and>
        map_of kvs ''title'' = Some (JStr ''Asset Metadata'') \<and>
        map_of kvs ''type'' = Some (JStr ''object'') \<and>
        map_of kvs ''properties'' = Some (JObj props) \<and>
        hasStringSchema props ''name'' \<and> hasStringSchema props ''image'' \<and>
        hasStringSchema props ''description'')"

text \<open>
  The value found by following keys through nested objects; \<^verbatim>\<open>None\<close> when a key or an
  object on the way is missing.
\<close>

fun lookupPath :: "jsval \<Rightarrow> string list \<Rightarrow> jsval option" where
  "lookupPath v [] = Some v"
| "lookupPath (JObj kvs) (k # ks) = (case map_of kvs k of None \<Rightarrow> None | Some w \<Rightarrow> lookupPath w ks)"
| "lookupPath v (k # ks) = None"

text \<open>
  The field as the specification states it (the description, or the empty string when it
  is missing), and as the code computes it (the empty string also when the description is
  falsy).
\<close>

definition descriptionOrMissing :: "jsval \<Rightarrow> string \<Rightarrow> jsval" where
  "descriptionOrMissing data k =
     (case lookupPath data [''properties'', k, ''description''] of
        None \<Rightarrow> JStr ''''
      | Some v \<Rightarrow> v)"

definition descriptionOrEmpty :: "jsval \<Rightarrow> string \<Rightarrow> jsval" where
  "descriptionOrEmpty data k =
     (case lookupPath data [''properties'', k, ''description''] of
        None \<Rightarrow> JStr ''''
      | Some v \<Rightarrow> if truthy v then v else JStr '''')"

section \<open>Framing an image\<close>

text \<open>
  JavaScript numbers are idealised as real numbers: rounding, infinities and
  \<^verbatim>\<open>NaN\<close> are outside the model. \<^verbatim>\<open>naturalWidth\<close> and \<^verbatim>\<open>naturalHeight\<close> are
  unsigned integers.
\<close>

record HTMLImageElement =
  naturalWidth :: nat
  naturalHeight :: nat

text \<open>
  The second parameter \<^verbatim>\<open>{ scale = 1, padding = 0 } = {}\<close>: the object and each of
  its two properties may be absent, and then take their defaults.
\<close>

record frameOptions =
  scale :: "real option"
  padding :: "real option"

definition scaleOf :: "frameOptions option \<Rightarrow> real" where
  "scaleOf options =
     (case options of None \<Rightarrow> 1 | Some opts \<Rightarrow> (case scale opts of None \<Rightarrow> 1 | Some s \<Rightarrow> s))"

definition paddingOf :: "frameOptions option \<Rightarrow> real" where
  "paddingOf options =
     (case options of None \<Rightarrow> 0 | Some opts \<Rightarrow> (case padding opts of None \<Rightarrow> 0 | Some p \<Rightarrow> p))"

text \<open>
  The three constants of the body: \<^verbatim>\<open>width = image.naturalWidth * scale\<close>,
  \<^verbatim>\<open>height = image.naturalHeight * scale\<close> and
  \<^verbatim>\<open>_padding = Math.max(width * padding, height * padding)\<close>.
\<close>

definition scaledWidth :: "HTMLImageElement \<Rightarrow> frameOptions option \<Rightarrow> real" where
  "scaledWidth img options = real (naturalWidth img) * scaleOf options"

definition scaledHeight :: "HTMLImageElement \<Rightarrow> frameOptions option \<Rightarrow> real" where
  "scaledHeight img options = real (naturalHeight img) * scaleOf options"

definition paddingPixels :: "HTMLImageElement \<Rightarrow> frameOptions option \<Rightarrow> real" where
  "paddingPixels img options =
     max (scaledWidth img options * paddingOf options) (scaledHeight img options * paddingOf options)"







section \<open>Marketplace URLs\<close>

subsection \<open>The URL class\<close>

text \<open>
  \<^verbatim>\<open>URL\<close> belongs to the host environment, not to this module, and is a parameter of
  the functions that use it: its constructor (\<^verbatim>\<open>None\<close> when it throws), the getters
  \<^verbatim>\<open>host\<close> and \<^verbatim>\<open>pathname\<close>, the \<^verbatim>\<open>pathname\<close> setter,
  \<^verbatim>\<open>searchParams.set\<close> and the conversion to a string. The setters are modelled as
  functions that return the updated URL; none of them throws.
\<close>

record 'u URL_class =
  URL_new :: "string \<Rightarrow> 'u option"
  URL_host :: "'u \<Rightarrow> string"
  URL_pathname :: "'u \<Rightarrow> string"
  URL_set_pathname :: "'u \<Rightarrow> string \<Rightarrow> 'u"
  URL_searchParams_set :: "'u \<Rightarrow> string \<Rightarrow> string \<Rightarrow> 'u"
  URL_toString :: "'u \<Rightarrow> string"

subsection \<open>String methods\<close>

text \<open>\<^verbatim>\<open>s.includes(sub)\<close>\<close>

fun includes_str :: "string \<Rightarrow> string \<Rightarrow> bool" where
  "includes_str [] sub = (sub = [])"
| "includes_str (c # cs) sub = (stripPrefix sub (c # cs) \<noteq> None \<or> includes_str cs sub)"

text \<open>
  The replacement text of \<^verbatim>\<open>String.prototype.replace\<close> for a regular expression
  without capture groups (\<^verbatim>\<open>GetSubstitution\<close>): in the template, \<^verbatim>\<open>$$\<close> stands for a
  dollar sign, \<^verbatim>\<open>$&\<close> for the matched text, \<^verbatim>\<open>$`\<close> for the text before the match and
  \<^verbatim>\<open>$'\<close> for the text after it; every other character, and a dollar sign followed by
  anything else, stands for itself.
\<close>

fun getSubstitution :: "string \<Rightarrow> string \<Rightarrow> string \<Rightarrow> string \<Rightarrow> string" where
  "getSubstitution matched before after [] = []"
| "getSubstitution matched before after [c] = [c]"
| "getSubstitution matched before after (c # d # r) =
     (if c = CHR ''$'' \<and> d = CHR ''$'' then CHR ''$'' # getSubstitution matched before after r
      else if c = CHR ''$'' \<and> d = CHR ''&'' then matched @ getSubstitution matched before after r
      else if c = CHR ''$'' \<and> d = CHR 0x60 then before @ getSubstitution matched before after r
      else if c = CHR ''$'' \<and> d = CHR 0x27 then after @ getSubstitution matched before after r
      else c # getSubstitution matched before after (d # r))"

text \<open>
  \<^verbatim>\<open>s.replace(/pat/g, template)\<close> for a pattern \<^verbatim>\<open>pat\<close> of literal characters: the
  string is scanned from the left, each match found is replaced by its substitution and
  the scan goes on after the match. \<^verbatim>\<open>skip\<close> counts the characters of the current match
  still to pass over, \<^verbatim>\<open>before\<close> is the part of the string already scanned.
\<close>

fun replaceFrom :: "string \<Rightarrow> string \<Rightarrow> nat \<Rightarrow> string \<Rightarrow> string \<Rightarrow> string" where
  "replaceFrom pat template skip before [] = []"
| "replaceFrom pat template (Suc n) before (c # cs) = replaceFrom pat template n (before @ [c]) cs"
| "replaceFrom pat template 0 before (c # cs) =
     (case stripPrefix pat (c # cs) of
        Some after \<Rightarrow>
          getSubstitution pat before after template @
          replaceFrom pat template (length pat - 1) (before @ [c]) cs
      | None \<Rightarrow> c # replaceFrom pat template 0 (before @ [c]) cs)"

definition replaceGlobal :: "string \<Rightarrow> string \<Rightarrow> string \<Rightarrow> string" where
  "replaceGlobal s pat template = replaceFrom pat template 0 [] s"

text \<open>
  Replacing every occurrence of a pattern by a text taken literally, scanning from the
  left: what the specification of \<^verbatim>\<open>normalizeOpenSeaUrl\<close> asks of the token id.
\<close>

fun replaceEvery :: "string \<Rightarrow> string \<Rightarrow> nat \<Rightarrow> string \<Rightarrow> string" where
  "replaceEvery pat lit skip [] = []"
| "replaceEvery pat lit (Suc n) (c # cs) = replaceEvery pat lit n cs"
| "replaceEvery pat lit 0 (c # cs) =
     (if stripPrefix pat (c # cs) \<noteq> None then lit @ replaceEvery pat lit (length pat - 1) cs
      else c # replaceEvery pat lit 0 cs)"

subsection \<open>The normalisers\<close>

text \<open>\<^verbatim>\<open>0x%7Bid%7D\<close>, the URL-encoded \<^verbatim>\<open>0x{id}\<close>.\<close>

definition ID_PLACEHOLDER :: string where
  "ID_PLACEHOLDER = ''0x%7Bid%7D''"

text \<open>
  \<^verbatim>\<open>normalizeOpenSeaUrl\<close>: the whole body is inside \<^verbatim>\<open>try\<close>, and the constructor is
  the only call in it that can throw.
\<close>

definition normalizeOpenSeaUrl :: "'u URL_class \<Rightarrow> string \<Rightarrow> string \<Rightarrow> string" where
  "normalizeOpenSeaUrl api url tokenId =
     (case URL_new api url of
        None \<Rightarrow> url
      | Some u \<Rightarrow>
          if URL_host api u \<noteq> ''api.opensea.io'' \<or> \<not> includes_str (URL_pathname api u) ID_PLACEHOLDER
          then url
          else
            (let u1 = URL_set_pathname api u (replaceGlobal (URL_pathname api u) ID_PLACEHOLDER tokenId);
                 u2 = URL_searchParams_set api u1 ''format'' ''json''
             in URL_toString api u2))"

definition normalizeNiftyGatewayUrl :: "'u URL_class \<Rightarrow> string \<Rightarrow> string" where
  "normalizeNiftyGatewayUrl api url =
     (case URL_new api url of
        None \<Rightarrow> url
      | Some u \<Rightarrow>
          if URL_host api u \<noteq> ''api.niftygateway.com'' then url
          else URL_toString api (URL_set_pathname api u (URL_pathname api u @ ''/'')))"

definition normalizeTokenUrl :: "'u URL_class \<Rightarrow> string \<Rightarrow> string \<Rightarrow> string" where
  "normalizeTokenUrl api url tokenId =
     ipfsUrl (normalizeNiftyGatewayUrl api (normalizeOpenSeaUrl api url tokenId)) ipfsUrlDefault"

text \<open>
  Parsing again what a URL with a new pathname serialises to.
\<close>

definition reparse :: "'u URL_class \<Rightarrow> 'u \<Rightarrow> string \<Rightarrow> 'u option" where
  "reparse api u p = URL_new api (URL_toString api (URL_set_pathname api u p))"

subsection \<open>A URL class for plain URLs\<close>

text \<open>
  An instance of the URL class for the examples. It follows the URL Standard on the
  strings \<^verbatim>\<open>https://<host><path>\<close> whose host is made of lower-case letters, digits,
  dots and hyphens, and whose path, when there is one, begins with a slash and is made of
  letters, digits and the characters \<^verbatim>\<open>/ % - _ $ &\<close>, with no percent-encoded dot:
  such a URL is kept as it is written, an empty path being \<^verbatim>\<open>/\<close>. Every other string
  is refused, and a pathname or a query parameter outside these characters is not set.
\<close>

record plainUrl =
  hostOf :: string
  pathOf :: string
  searchOf :: "(string \<times> string) list"

definition isAlphaNum :: "char \<Rightarrow> bool" where
  "isAlphaNum c \<longleftrightarrow>
     inRange CHR ''a'' CHR ''z'' c \<or> inRange CHR ''A'' CHR ''Z'' c \<or> inRange CHR ''0'' CHR ''9'' c"

definition isPlainHost :: "string \<Rightarrow> bool" where
  "isPlainHost h \<longleftrightarrow>
     h \<noteq> [] \<and>
     list_all (\<lambda>c. inRange CHR ''a'' CHR ''z'' c \<or> inRange CHR ''0'' CHR ''9'' c \<or>
                   c = CHR ''.'' \<or> c = CHR ''-'') h"

definition isPlainPath :: "string \<Rightarrow> bool" where
  "isPlainPath p \<longleftrightarrow>
     stripPrefix ''/'' p \<noteq> None \<and>
     list_all (\<lambda>c. isAlphaNum c \<or> c \<in> set ''/%-_$&'') p \<and>
     \<not> includes_str p ''%2e'' \<and> \<not> includes_str p ''%2E''"

definition plainUrl_new :: "string \<Rightarrow> plainUrl option" where
  "plainUrl_new s =
     (case stripPrefix ''https://'' s of
        None \<Rightarrow> None
      | Some r \<Rightarrow>
          (let h = takeWhile (\<lambda>c. c \<noteq> CHR ''/'') r;
               p = dropWhile (\<lambda>c. c \<noteq> CHR ''/'') r
           in if isPlainHost h \<and> (p = [] \<or> isPlainPath p)
              then Some \<lparr>hostOf = h, pathOf = (if p = [] then ''/'' else p), searchOf = []\<rparr>
              else None))"

fun setParam :: "(string \<times> string) list \<Rightarrow> string \<Rightarrow> string \<Rightarrow> (string \<times> string) list" where
  "setParam [] k v = [(k, v)]"
| "setParam ((k', v') # ps) k v =
     (if k' = k then (k, v) # filter (\<lambda>kv. fst kv \<noteq> k) ps else (k', v') # setParam ps k v)"

fun serializeParams :: "(string \<times> string) list \<Rightarrow> string" where
  "serializeParams [] = []"
| "serializeParams [(k, v)] = k @ ''='' @ v"
| "serializeParams ((k, v) # ps) = k @ ''='' @ v @ ''&'' @ serializeParams ps"

definition plainUrl_toString :: "plainUrl \<Rightarrow> string" where
  "plainUrl_toString u =
     ''https://'' @ hostOf u @ pathOf u @
     (if searchOf u = [] then [] else ''?'' @ serializeParams (searchOf u))"

definition plainUrlClass :: "plainUrl URL_class" where
  "plainUrlClass =
     \<lparr>URL_new = plainUrl_new,
      URL_host = hostOf,
      URL_pathname = pathOf,
      URL_set_pathname = (\<lambda>u p. if isPlainPath p then u\<lparr>pathOf := p\<rparr> else u),
      URL_searchParams_set =
        (\<lambda>u k v. if list_all isAlphaNum k \<and> list_all isAlphaNum v
                 then u\<lparr>searchOf := setParam (searchOf u) k v\<rparr> else u),
      URL_toString = plainUrl_toString\<rparr>"

section \<open>Properties\<close>

subsection \<open>Literal prefixes\<close>

lemma stripPrefix_Some_iff: "stripPrefix p s = Some r \<longleftrightarrow> s = p @ r"
  by (induction p s rule: stripPrefix.induct) auto

lemma stripPrefix_append: "stripPrefix p (p @ r) = Some r"
  by (simp add: stripPrefix_Some_iff)

lemma stripPrefix_None_iff: "stripPrefix p s = None \<longleftrightarrow> \<not> prefix p s"
  by (induction p s rule: stripPrefix.induct) auto

subsection \<open>\<^verbatim>\<open>parseNftUrl\<close>\<close>

lemma isAddress_iff: "isAddress a \<longleftrightarrow> (\<exists>hex. a = ''0x'' @ hex \<and> length hex = 40 \<and> list_all isHexDigit hex)"
  unfolding isAddress_def by (auto simp: stripPrefix_Some_iff split: option.splits)

lemma takeWhile_digits_append:
  "list_all isDigit tid \<Longrightarrow> takeWhile isDigit (tid @ rest) = tid @ takeWhile isDigit rest"
  by (induction tid) auto

lemma RARIBLE_match:
  assumes "raribleShape addr tid"
  shows "RARIBLE_MATCH_RE (''https://rarible.com/token/'' @ addr @ '':'' @ tid @ rest)
         = Some (addr, tid @ takeWhile isDigit rest)"
proof -
  from assms obtain hex where a: "addr = ''0x'' @ hex" and l: "length hex = 40" and h: "list_all isHexDigit hex"
    and t: "tid \<noteq> []" "list_all isDigit tid"
    by (auto simp: raribleShape_def isAddress_iff)
  have 1: "stripPrefix ''https://rarible.com/token/'' (''https://rarible.com/token/'' @ addr @ '':'' @ tid @ rest) = Some (addr @ '':'' @ tid @ rest)"
    by (rule stripPrefix_append)
  have 2: "stripPrefix ''0x'' (addr @ '':'' @ tid @ rest) = Some (hex @ '':'' @ tid @ rest)"
    unfolding a by (simp add: stripPrefix_Some_iff)
  have 3: "take 40 (hex @ '':'' @ tid @ rest) = hex" "drop 40 (hex @ '':'' @ tid @ rest) = '':'' @ tid @ rest"
    using l by simp_all
  have 4: "stripPrefix '':'' ('':'' @ tid @ rest) = Some (tid @ rest)"
    by (rule stripPrefix_append)
  show ?thesis
    unfolding RARIBLE_MATCH_RE_def 1 option.case 2 3 4
    using l h t by (simp add: takeWhile_digits_append a)
qed

lemma RARIBLE_match_shape:
  assumes "RARIBLE_MATCH_RE url = Some (g1, g2)"
  shows "\<exists>rest. url = ''https://rarible.com/token/'' @ g1 @ '':'' @ g2 @ rest \<and> raribleShape g1 g2"
proof -
  from assms obtain r1 r2 r3 where
    1: "url = ''https://rarible.com/token/'' @ r1" and 2: "r1 = ''0x'' @ r2"
    and 3: "length (take 40 r2) = 40" "list_all isHexDigit (take 40 r2)"
    and 4: "drop 40 r2 = '':'' @ r3" and 5: "takeWhile isDigit r3 \<noteq> []"
    and g: "g1 = ''0x'' @ take 40 r2" "g2 = takeWhile isDigit r3"
    unfolding RARIBLE_MATCH_RE_def
    by (auto simp: stripPrefix_Some_iff split: option.splits if_splits)
  have r2: "r2 = take 40 r2 @ '':'' @ r3" using 4 by (metis append_take_drop_id)
  have r3: "r3 = takeWhile isDigit r3 @ dropWhile isDigit r3" by simp
  have "url = ''https://rarible.com/token/'' @ g1 @ '':'' @ g2 @ dropWhile isDigit r3"
    unfolding 1 2 g using r2 r3 by (metis append.assoc)
  moreover have "raribleShape g1 g2"
    unfolding raribleShape_def isAddress_iff g using 3 5
    by (auto simp: list_all_iff dest: set_takeWhileD)
  ultimately show ?thesis by blast
qed

lemma parseNftUrl_None_iff:
  "parseNftUrl url = None \<longleftrightarrow>
     \<not> (\<exists>addr tid rest. url = raribleUrl ''rarible.com'' addr tid rest \<and> raribleShape addr tid)"
proof
  assume n: "parseNftUrl url = None"
  show "\<not> (\<exists>addr tid rest. url = raribleUrl ''rarible.com'' addr tid rest \<and> raribleShape addr tid)"
  proof
    assume "\<exists>addr tid rest. url = raribleUrl ''rarible.com'' addr tid rest \<and> raribleShape addr tid"
    then obtain addr tid rest where u: "url = ''https://rarible.com/token/'' @ addr @ '':'' @ tid @ rest"
      and s: "raribleShape addr tid"
      by (auto simp: raribleUrl_def)
    from RARIBLE_match [OF s, of rest] n show False
      by (simp add: parseNftUrl_def u)
  qed
next
  assume h: "\<not> (\<exists>addr tid rest. url = raribleUrl ''rarible.com'' addr tid rest \<and> raribleShape addr tid)"
  show "parseNftUrl url = None"
  proof (cases "RARIBLE_MATCH_RE url")
    case None
    then show ?thesis by (simp add: parseNftUrl_def)
  next
    case (Some g)
    obtain g1 g2 where g: "g = (g1, g2)" by (cases g)
    from RARIBLE_match_shape [of url g1 g2] Some g h show ?thesis
      by (auto simp: raribleUrl_def)
  qed
qed

lemma takeWhile_until:
  "c \<notin> set xs \<Longrightarrow> takeWhile (\<lambda>x. x \<noteq> c) (xs @ c # ys) = xs"
  by (induction xs) auto

lemma dropWhile_until:
  "c \<notin> set xs \<Longrightarrow> dropWhile (\<lambda>x. x \<noteq> c) (xs @ c # ys) = c # ys"
  by (induction xs) auto

lemma other_domain_no_prefix:
  assumes "CHR ''/'' \<notin> set hostname" and "hostname \<noteq> ''rarible.com''"
  shows "stripPrefix ''https://rarible.com/token/'' (''https://'' @ hostname @ ''/token/'' @ t) = None"
proof (rule ccontr)
  assume "stripPrefix ''https://rarible.com/token/'' (''https://'' @ hostname @ ''/token/'' @ t) \<noteq> None"
  then obtain r where "''https://'' @ hostname @ ''/token/'' @ t = ''https://rarible.com/token/'' @ r"
    by (auto simp: stripPrefix_Some_iff)
  then have e: "hostname @ ''/token/'' @ t = ''rarible.com'' @ ''/token/'' @ r" by simp
  have "takeWhile (\<lambda>c. c \<noteq> CHR ''/'') (hostname @ ''/token/'' @ t) = hostname"
    using assms(1) by (simp add: takeWhile_until)
  moreover have "takeWhile (\<lambda>c. c \<noteq> CHR ''/'') (''rarible.com'' @ ''/token/'' @ r) = ''rarible.com''"
    by simp
  ultimately show False using e assms(2) by simp
qed

lemma parseNftUrl_other_domain:
  assumes "CHR ''/'' \<notin> set hostname" and "hostname \<noteq> ''rarible.com''"
  shows "parseNftUrl (raribleUrl hostname addr tid rest) = None"
  using other_domain_no_prefix [OF assms, of "addr @ '':'' @ tid @ rest"]
  by (simp add: parseNftUrl_def RARIBLE_MATCH_RE_def raribleUrl_def)

text \<open>
  C10. \<^verbatim>\<open>parseNftUrl\<close> recognises the rarible.com domain only. It returns
  \<^verbatim>\<open>null\<close> exactly for the strings that do not begin with
  \<^verbatim>\<open>https://rarible.com/token/\<close>, a 0x-prefixed 40-hex-digit address, a colon and at
  least one decimal digit. The match is a prefix match: whatever follows the token id,
  the address and the longest run of digits after the colon are returned. The same shape
  on any other host name returns \<^verbatim>\<open>null\<close>.
\<close>

theorem parseNftUrl_rarible_only:
  "(parseNftUrl url = None \<longleftrightarrow>
      \<not> (\<exists>addr tid rest. url = raribleUrl ''rarible.com'' addr tid rest \<and> raribleShape addr tid)) \<and>
   (raribleShape addr tid \<longrightarrow>
      parseNftUrl (raribleUrl ''rarible.com'' addr tid rest) = Some (addr, tid @ takeWhile isDigit rest)) \<and>
   (CHR ''/'' \<notin> set hostname \<and> hostname \<noteq> ''rarible.com'' \<longrightarrow> parseNftUrl (raribleUrl hostname addr tid rest) = None)"
proof (intro conjI impI)
  show "parseNftUrl url = None \<longleftrightarrow>
      \<not> (\<exists>addr tid rest. url = raribleUrl ''rarible.com'' addr tid rest \<and> raribleShape addr tid)"
    by (rule parseNftUrl_None_iff)
next
  assume "raribleShape addr tid"
  from RARIBLE_match [OF this, of rest]
  show "parseNftUrl (raribleUrl ''rarible.com'' addr tid rest) = Some (addr, tid @ takeWhile isDigit rest)"
    by (simp add: parseNftUrl_def raribleUrl_def)
next
  assume "CHR ''/'' \<notin> set hostname \<and> hostname \<noteq> ''rarible.com''"
  then show "parseNftUrl (raribleUrl hostname addr tid rest) = None"
    by (simp add: parseNftUrl_other_domain)
qed

theorem parseNftUrl_rarible_only_witness:
  "raribleShape ''0x1234567890abcdefABCDEF1234567890abcdef12'' ''7'' \<and>
   CHR ''/'' \<notin> set ''opensea.io'' \<and> ''opensea.io'' \<noteq> ''rarible.com'' \<and>
   parseNftUrl ''https://rarible.com/token/0x1234567890abcdefABCDEF1234567890abcdef12:7?tab=owners''
     = Some (''0x1234567890abcdefABCDEF1234567890abcdef12'', ''7'') \<and>
   parseNftUrl ''https://opensea.io/token/0x1234567890abcdefABCDEF1234567890abcdef12:7'' = None \<and>
   parseNftUrl ''https://rarible.com/token/0x1234:7'' = None"
proof -
  have s: "raribleShape ''0x1234567890abcdefABCDEF1234567890abcdef12'' ''7''"
    by (simp add: raribleShape_def isAddress_def isHexDigit_def isDigit_def inRange_def)
  have d: "CHR ''/'' \<notin> set ''opensea.io'' \<and> ''opensea.io'' \<noteq> ''rarible.com''"
    by simp
  note t = parseNftUrl_rarible_only [of _ "''0x1234567890abcdefABCDEF1234567890abcdef12''" "''7''" _ "''opensea.io''"]
  have 1: "parseNftUrl ''https://rarible.com/token/0x1234567890abcdefABCDEF1234567890abcdef12:7?tab=owners''
     = Some (''0x1234567890abcdefABCDEF1234567890abcdef12'', ''7'')"
    using t [of "''x''" "''?tab=owners''"] s by (simp add: raribleUrl_def isDigit_def inRange_def)
  have 2: "parseNftUrl ''https://opensea.io/token/0x1234567890abcdefABCDEF1234567890abcdef12:7'' = None"
    using t [of "''x''" "[]"] d by (simp add: raribleUrl_def)
  have 3: "parseNftUrl ''https://rarible.com/token/0x1234:7'' = None"
    by (simp add: parseNftUrl_def RARIBLE_MATCH_RE_def isHexDigit_def inRange_def)
  show ?thesis using s d 1 2 3 by blast
qed

subsection \<open>\<^verbatim>\<open>ipfsUrl\<close>\<close>

lemma takeWhile_no_slash: "CHR ''/'' \<notin> set cid \<Longrightarrow> takeWhile (\<lambda>c. c \<noteq> CHR ''/'') cid = cid"
  by (induction cid) auto

lemma dropWhile_no_slash: "CHR ''/'' \<notin> set cid \<Longrightarrow> dropWhile (\<lambda>c. c \<noteq> CHR ''/'') cid = []"
  by (induction cid) auto

lemma IPFS_PROTOCOL_RE_locator:
  assumes "isIpfsLocator url cid path"
  shows "IPFS_PROTOCOL_RE url = Some (cid, if path = [] then None else Some path)"
proof -
  from assms have u: "url = ''ipfs://ipfs/'' @ cid @ path" and c: "cid \<noteq> []" "CHR ''/'' \<notin> set cid"
    and p: "path = [] \<or> isPathSuffix path"
    by (auto simp: isIpfsLocator_def)
  have s: "stripPrefix ''ipfs://ipfs/'' url = Some (cid @ path)"
    unfolding u by (rule stripPrefix_append)
  from p show ?thesis
  proof
    assume e: "path = []"
    with c show ?thesis
      unfolding IPFS_PROTOCOL_RE_def s
      by (simp add: takeWhile_no_slash dropWhile_no_slash)
  next
    assume "isPathSuffix path"
    then obtain q where q: "path = CHR ''/'' # q" "q \<noteq> []" "\<forall>c \<in> set q. \<not> isLineTerminator c"
      by (auto simp: isPathSuffix_def)
    with c show ?thesis
      unfolding IPFS_PROTOCOL_RE_def s
      by (simp add: takeWhile_until dropWhile_until list_all_iff)
  qed
qed

lemma IPFS_PROTOCOL_RE_shape:
  assumes "IPFS_PROTOCOL_RE url = Some (cid, g2)"
  shows "isIpfsLocator url cid (case g2 of None \<Rightarrow> [] | Some p \<Rightarrow> p)"
proof -
  let ?ns = "\<lambda>c. c \<noteq> CHR ''/''"
  from assms obtain r where s: "stripPrefix ''ipfs://ipfs/'' url = Some r"
    unfolding IPFS_PROTOCOL_RE_def by (cases "stripPrefix ''ipfs://ipfs/'' url") auto
  then have u: "url = ''ipfs://ipfs/'' @ r"
    by (simp add: stripPrefix_Some_iff)
  define rest where "rest = dropWhile ?ns r"
  from assms have m: "(if takeWhile ?ns r = [] then None
        else if rest = [] then Some (takeWhile ?ns r, None)
        else if tl rest \<noteq> [] \<and> list_all (\<lambda>c. \<not> isLineTerminator c) (tl rest)
          then Some (takeWhile ?ns r, Some rest)
        else None) = Some (cid, g2)"
    unfolding IPFS_PROTOCOL_RE_def s rest_def by (simp add: Let_def)
  then have c: "cid = takeWhile ?ns r" "cid \<noteq> []"
    by (auto split: if_splits)
  have r: "r = cid @ rest" unfolding c rest_def by simp
  have ns: "CHR ''/'' \<notin> set cid" unfolding c by (auto dest: set_takeWhileD)
  show ?thesis
  proof (cases "rest = []")
    case True
    with m have "g2 = None" by (auto split: if_splits)
    with True r u c ns show ?thesis by (simp add: isIpfsLocator_def)
  next
    case False
    with m have g: "g2 = Some rest" and t: "tl rest \<noteq> []"
      and lt: "list_all (\<lambda>c. \<not> isLineTerminator c) (tl rest)"
      by (auto split: if_splits)
    from False have "hd rest = CHR ''/''"
      unfolding rest_def using hd_dropWhile [of ?ns r] by simp
    with False have "rest = CHR ''/'' # tl rest"
      by (cases rest) auto
    with t lt have "isPathSuffix rest"
      unfolding isPathSuffix_def list_all_iff by blast
    with g r u c ns show ?thesis by (simp add: isIpfsLocator_def)
  qed
qed

lemma IPFS_HASH_RE_iff: "IPFS_HASH_RE url \<longleftrightarrow> isBareCid url"
  unfolding IPFS_HASH_RE_def isBareCid_def
  by (auto simp: stripPrefix_Some_iff list_all_iff split: option.splits)

lemma isBareCid_not_locator: "isBareCid url \<Longrightarrow> IPFS_PROTOCOL_RE url = None"
  unfolding isBareCid_def IPFS_PROTOCOL_RE_def
  by (auto simp: stripPrefix_Some_iff split: option.splits)

lemma ipfsUrl_locator:
  assumes "isIpfsLocator url cid path"
  shows "ipfsUrl url builder = builder cid (Some path)"
  using IPFS_PROTOCOL_RE_locator [OF assms] by (simp add: ipfsUrl_def)

lemma ipfsUrl_bare:
  assumes "isBareCid url"
  shows "ipfsUrl url builder = builder url None"
  using assms isBareCid_not_locator [OF assms] by (simp add: ipfsUrl_def IPFS_HASH_RE_iff)

lemma ipfsUrl_other:
  assumes "\<not> (\<exists>cid path. isIpfsLocator url cid path)" and "\<not> isBareCid url"
  shows "ipfsUrl url builder = url"
proof (cases "IPFS_PROTOCOL_RE url")
  case None
  with assms(2) show ?thesis by (simp add: ipfsUrl_def IPFS_HASH_RE_iff)
next
  case (Some m)
  obtain cid g2 where "m = (cid, g2)" by (cases m)
  with Some IPFS_PROTOCOL_RE_shape [of url cid g2] assms(1) show ?thesis by blast
qed

text \<open>
  C3. \<^verbatim>\<open>ipfsUrl\<close> has exactly three cases. (a) On a locator
  \<^verbatim>\<open>ipfs://ipfs/<cid>\<close> with an optional \<^verbatim>\<open>/<path>\<close> suffix the builder is applied to
  the CID and the path (the empty path when there is none), which with the default builder
  is \<^verbatim>\<open>https://ipfs.io/ipfs/\<close> followed by the CID and the path. (b) On a bare CID,
  \<^verbatim>\<open>Qm\<close> and exactly 44 base58 characters, the builder is applied to the whole string and
  no path, which with the default builder is \<^verbatim>\<open>https://ipfs.io/ipfs/\<close> followed by the
  string. (c) Any other string is returned unchanged, whatever the builder.
\<close>

theorem ipfsUrl_three_cases:
  "(isIpfsLocator url cid path \<longrightarrow>
      ipfsUrl url builder = builder cid (Some path) \<and>
      ipfsUrl url ipfsUrlDefault = ''https://ipfs.io/ipfs/'' @ cid @ path) \<and>
   (isBareCid url \<longrightarrow>
      ipfsUrl url builder = builder url None \<and>
      ipfsUrl url ipfsUrlDefault = ''https://ipfs.io/ipfs/'' @ url) \<and>
   (\<not> (\<exists>c p. isIpfsLocator url c p) \<and> \<not> isBareCid url \<longrightarrow> ipfsUrl url builder = url)"
proof (intro conjI impI)
  assume l: "isIpfsLocator url cid path"
  show "ipfsUrl url builder = builder cid (Some path)"
    by (rule ipfsUrl_locator [OF l])
  show "ipfsUrl url ipfsUrlDefault = ''https://ipfs.io/ipfs/'' @ cid @ path"
    unfolding ipfsUrl_locator [OF l] by (simp add: ipfsUrlDefault_def)
next
  assume b: "isBareCid url"
  show "ipfsUrl url builder = builder url None"
    by (rule ipfsUrl_bare [OF b])
  show "ipfsUrl url ipfsUrlDefault = ''https://ipfs.io/ipfs/'' @ url"
    unfolding ipfsUrl_bare [OF b] by (simp add: ipfsUrlDefault_def)
next
  assume "\<not> (\<exists>c p. isIpfsLocator url c p) \<and> \<not> isBareCid url"
  then show "ipfsUrl url builder = url"
    using ipfsUrl_other [of url builder] by blast
qed

lemma not_locator_unless_prefix:
  "\<not> prefix ''ipfs://ipfs/'' url \<Longrightarrow> \<not> (\<exists>c p. isIpfsLocator url c p)"
  by (auto simp: isIpfsLocator_def)

lemma not_bare_unless_prefix: "\<not> prefix ''Qm'' url \<Longrightarrow> \<not> isBareCid url"
  by (auto simp: isBareCid_def)

theorem ipfsUrl_three_cases_witness:
  "isIpfsLocator ''ipfs://ipfs/QmNt5T9HSXKLXZ3kmciU4Tm6q9R8JEm5ifJkPoxapjyRUR/sub/path''
      ''QmNt5T9HSXKLXZ3kmciU4Tm6q9R8JEm5ifJkPoxapjyRUR'' ''/sub/path'' \<and>
   ipfsUrl ''ipfs://ipfs/QmNt5T9HSXKLXZ3kmciU4Tm6q9R8JEm5ifJkPoxapjyRUR/sub/path'' ipfsUrlDefault
     = ''https://ipfs.io/ipfs/QmNt5T9HSXKLXZ3kmciU4Tm6q9R8JEm5ifJkPoxapjyRUR/sub/path'' \<and>
   isBareCid ''QmNt5T9HSXKLXZ3kmciU4Tm6q9R8JEm5ifJkPoxapjyRUR'' \<and>
   ipfsUrl ''QmNt5T9HSXKLXZ3kmciU4Tm6q9R8JEm5ifJkPoxapjyRUR'' ipfsUrlDefault
     = ''https://ipfs.io/ipfs/QmNt5T9HSXKLXZ3kmciU4Tm6q9R8JEm5ifJkPoxapjyRUR'' \<and>
   \<not> (\<exists>c p. isIpfsLocator ''https://example.com/x'' c p) \<and> \<not> isBareCid ''https://example.com/x'' \<and>
   ipfsUrl ''https://example.com/x'' ipfsUrlDefault = ''https://example.com/x''"
proof -
  let ?cid = "''QmNt5T9HSXKLXZ3kmciU4Tm6q9R8JEm5ifJkPoxapjyRUR''"
  let ?loc = "''ipfs://ipfs/QmNt5T9HSXKLXZ3kmciU4Tm6q9R8JEm5ifJkPoxapjyRUR/sub/path''"
  have l: "isIpfsLocator ?loc ?cid ''/sub/path''"
    by (simp add: isIpfsLocator_def isPathSuffix_def isLineTerminator_def)
  have b: "isBareCid ?cid"
    by (simp add: isBareCid_def isBase58_def inRange_def)
  have o: "\<not> (\<exists>c p. isIpfsLocator ''https://example.com/x'' c p)" "\<not> isBareCid ''https://example.com/x''"
    by (simp_all add: not_locator_unless_prefix not_bare_unless_prefix)
  from l have 1: "ipfsUrl ?loc ipfsUrlDefault = ''https://ipfs.io/ipfs/'' @ ?cid @ ''/sub/path''"
    using ipfsUrl_three_cases [of ?loc ?cid "''/sub/path''" ipfsUrlDefault] by blast
  from b have 2: "ipfsUrl ?cid ipfsUrlDefault = ''https://ipfs.io/ipfs/'' @ ?cid"
    using ipfsUrl_three_cases [of ?cid ?cid "[]" ipfsUrlDefault] by blast
  from o have 3: "ipfsUrl ''https://example.com/x'' ipfsUrlDefault = ''https://example.com/x''"
    using ipfsUrl_three_cases [of "''https://example.com/x''" ?cid "[]" ipfsUrlDefault] by blast
  from l b o 1 2 3 show ?thesis by simp
qed

subsection \<open>\<^verbatim>\<open>normalizeImageUrl\<close>\<close>

text \<open>
  C8. On a string that matches neither the \<^verbatim>\<open>ipfs://ipfs/\<close> form nor the bare-CID
  pattern, as every HTTP(S) URL does, applying \<^verbatim>\<open>normalizeImageUrl\<close> twice gives the
  same result as applying it once.
\<close>

theorem normalizeImageUrl_idempotent:
  assumes "\<not> (\<exists>c p. isIpfsLocator u c p)" and "\<not> isBareCid u"
  shows "normalizeImageUrl (normalizeImageUrl u) = normalizeImageUrl u"
  unfolding normalizeImageUrl_def ipfsUrl_other [OF assms] ..

lemma http_matches_neither:
  assumes "prefix ''http://'' u \<or> prefix ''https://'' u"
  shows "\<not> (\<exists>c p. isIpfsLocator u c p) \<and> \<not> isBareCid u"
  using assms by (auto simp: isIpfsLocator_def isBareCid_def prefix_def)

theorem normalizeImageUrl_idempotent_witness:
  "\<not> (\<exists>c p. isIpfsLocator ''https://example.com/x'' c p) \<and> \<not> isBareCid ''https://example.com/x'' \<and>
   normalizeImageUrl (normalizeImageUrl ''https://example.com/x'') = normalizeImageUrl ''https://example.com/x''"
proof -
  have h: "\<not> (\<exists>c p. isIpfsLocator ''https://example.com/x'' c p) \<and> \<not> isBareCid ''https://example.com/x''"
    by (rule http_matches_neither) simp
  with normalizeImageUrl_idempotent [of "''https://example.com/x''"] show ?thesis by blast
qed

subsection \<open>\<^verbatim>\<open>addressesEqual\<close>\<close>

text \<open>
  C1, as the code has it. When both addresses are present the result is true exactly when
  they are equal after lower-casing; when exactly one of them is \<^verbatim>\<open>null\<close> or
  \<^verbatim>\<open>undefined\<close> the result is false; when both are, the result is true, since both
  sides are then \<^verbatim>\<open>undefined\<close>. No case throws.
\<close>

theorem addressesEqual_cases:
  "(addressesEqual (Present a) (Present b) \<longleftrightarrow> toLowerCase a = toLowerCase b) \<and>
   (isNullLike x \<and> \<not> isNullLike y \<longrightarrow> \<not> addressesEqual x y \<and> \<not> addressesEqual y x) \<and>
   (isNullLike x \<and> isNullLike y \<longrightarrow> addressesEqual x y)"
  by (cases x; cases y) (simp_all add: addressesEqual_def isNullLike_def)

theorem addressesEqual_cases_witness:
  "addressesEqual (Present ''0xABCDEF'') (Present ''0xabcdef'') \<and>
   \<not> addressesEqual (Present ''0xABCDEF'') (Present ''0xabcde0'') \<and>
   isNullLike (Null :: string nullable) \<and> \<not> isNullLike (Present ''0xabcdef'') \<and>
   \<not> addressesEqual Null (Present ''0xabcdef'') \<and> \<not> addressesEqual (Present ''0xabcdef'') Null \<and>
   isNullLike (Undefined :: string nullable) \<and> addressesEqual Null Undefined"
proof -
  have n: "isNullLike (Null :: string nullable)" "isNullLike (Undefined :: string nullable)"
    "\<not> isNullLike (Present ''0xabcdef'')"
    by (simp_all add: isNullLike_def)
  have l: "toLowerCase ''0xABCDEF'' = toLowerCase ''0xabcdef''"
    "toLowerCase ''0xABCDEF'' \<noteq> toLowerCase ''0xabcde0''"
    by code_simp+
  from addressesEqual_cases [of "''0xABCDEF''" "''0xabcdef''" Null "Present ''0xabcdef''"]
    addressesEqual_cases [of "''0xABCDEF''" "''0xabcde0''" Null Undefined] n l
  show ?thesis by blast
qed

text \<open>
  With both arguments \<^verbatim>\<open>undefined\<close> the result is not false.
\<close>

theorem addressesEqual_both_absent_counterexample:
  "addressesEqual Undefined Undefined \<noteq> False"
  by (simp add: addressesEqual_def)

subsection \<open>\<^verbatim>\<open>promiseAny\<close>\<close>

lemma isFulfilled_iff: "isFulfilled p \<longleftrightarrow> (\<exists>v. snd p = Fulfilled v)"
  by (cases p rule: isFulfilled.cases) simp_all

lemma isRejected_iff: "isRejected p \<longleftrightarrow> (\<exists>e. snd p = Rejected e)"
  by (cases p rule: isRejected.cases) simp_all

lemma firstRejection_None_iff: "firstRejection ps = None \<longleftrightarrow> (\<forall>p \<in> set ps. isFulfilled p)"
  by (induction ps rule: firstRejection.induct) (auto simp: isFulfilled_iff split: option.splits)

lemma firstRejection_Some:
  "firstRejection ps = Some (t, e) \<Longrightarrow>
     (t, Rejected e) \<in> set ps \<and> (\<forall>t' e'. (t', Rejected e') \<in> set ps \<longrightarrow> t \<le> t')"
proof (induction ps arbitrary: t e rule: firstRejection.induct)
  case 1
  then show ?case by simp
next
  case (2 t0 v ps)
  then show ?case by auto
next
  case (3 t0 e0 ps)
  show ?case
  proof (cases "firstRejection ps")
    case None
    then have "\<forall>p \<in> set ps. isFulfilled p" by (simp add: firstRejection_None_iff)
    then have "\<And>t' e'. (t', Rejected e') \<notin> set ps" by (auto simp: isFulfilled_iff)
    with 3 None show ?thesis by auto
  next
    case (Some r)
    obtain t1 e1 where r: "r = (t1, e1)" by (cases r)
    from "3.IH" [of t1 e1] Some r
    have ih: "(t1, Rejected e1) \<in> set ps" "\<forall>t' e'. (t', Rejected e') \<in> set ps \<longrightarrow> t1 \<le> t'"
      by auto
    show ?thesis
    proof (cases "t1 < t0")
      case True
      with "3.prems" Some r have "t = t1" "e = e1" by auto
      with ih True show ?thesis by auto
    next
      case False
      with "3.prems" Some r have "t = t0" "e = e0" by auto
      with ih False show ?thesis by fastforce
    qed
  qed
qed

lemma reverse_Rejected_iff: "(t, Rejected v) \<in> set (map reversePromise ps) \<longleftrightarrow> (t, Fulfilled v) \<in> set ps"
proof (induction ps)
  case Nil
  then show ?case by simp
next
  case (Cons p ps)
  have "reversePromise p = (t, Rejected v) \<longleftrightarrow> p = (t, Fulfilled v)"
    by (cases p rule: reversePromise.cases) auto
  with Cons show ?case by auto
qed

lemma reverse_isFulfilled: "isFulfilled (reversePromise p) \<longleftrightarrow> isRejected p"
  by (cases p rule: reversePromise.cases) (auto simp: isFulfilled_iff isRejected_iff)

lemma promiseAny_first_success:
  assumes "\<exists>p \<in> set ps. isFulfilled p"
  shows "\<exists>t v. promiseAny ps = (t, Fulfilled v) \<and> (t, Fulfilled v) \<in> set ps \<and>
           (\<forall>t' v'. (t', Fulfilled v') \<in> set ps \<longrightarrow> t \<le> t')"
proof -
  from assms obtain p where p: "p \<in> set ps" "isFulfilled p" by blast
  then have "\<not> isRejected p" by (auto simp: isFulfilled_iff isRejected_iff)
  with p have "\<not> (\<forall>q \<in> set (map reversePromise ps). isFulfilled q)"
    by (auto simp: reverse_isFulfilled)
  then obtain t v where f: "firstRejection (map reversePromise ps) = Some (t, v)"
    by (cases "firstRejection (map reversePromise ps)") (auto simp: firstRejection_None_iff)
  from firstRejection_Some [OF f, unfolded reverse_Rejected_iff]
  have "(t, Fulfilled v) \<in> set ps" "\<forall>t' v'. (t', Fulfilled v') \<in> set ps \<longrightarrow> t \<le> t'"
    by blast+
  moreover from f have "promiseAny ps = (t, Fulfilled v)"
    by (simp add: promiseAny_def Promise_all_def)
  ultimately show ?thesis by blast
qed

lemma promiseAny_rejects_iff:
  "(\<exists>t es. promiseAny ps = (t, Rejected es)) \<longleftrightarrow> (\<forall>p \<in> set ps. isRejected p)"
proof (cases "firstRejection (map reversePromise ps)")
  case None
  then have "\<forall>p \<in> set ps. isRejected p"
    by (simp add: firstRejection_None_iff reverse_isFulfilled)
  moreover from None have "\<exists>t es. promiseAny ps = (t, Rejected es)"
    by (simp add: promiseAny_def Promise_all_def)
  ultimately show ?thesis by simp
next
  case (Some r)
  obtain t v where r: "r = (t, v)" by (cases r)
  with Some have "promiseAny ps = (t, Fulfilled v)"
    by (simp add: promiseAny_def Promise_all_def)
  moreover from Some have "\<not> (\<forall>p \<in> set ps. isRejected p)"
    using firstRejection_None_iff [of "map reversePromise ps"] by (simp add: reverse_isFulfilled)
  ultimately show ?thesis by simp
qed

text \<open>
  C2. Over a list of operations that each succeed with a value or fail:
  when at least one succeeds, \<^verbatim>\<open>promiseAny\<close> resolves with the value of a successful
  operation, namely one that settles first among the successful ones; it rejects exactly
  when every operation fails; and on the empty list it rejects.
\<close>

theorem promiseAny_first_success_or_all_fail:
  "((\<exists>p \<in> set ps. isFulfilled p) \<longrightarrow>
      (\<exists>t v. promiseAny ps = (t, Fulfilled v) \<and> (t, Fulfilled v) \<in> set ps \<and>
         (\<forall>t' v'. (t', Fulfilled v') \<in> set ps \<longrightarrow> t \<le> t'))) \<and>
   ((\<exists>t es. promiseAny ps = (t, Rejected es)) \<longleftrightarrow> (\<forall>p \<in> set ps. isRejected p)) \<and>
   (\<exists>t es. promiseAny ([] :: ('a, 'e) promise list) = (t, Rejected es))"
proof (intro conjI impI)
  assume "\<exists>p \<in> set ps. isFulfilled p"
  then show "\<exists>t v. promiseAny ps = (t, Fulfilled v) \<and> (t, Fulfilled v) \<in> set ps \<and>
         (\<forall>t' v'. (t', Fulfilled v') \<in> set ps \<longrightarrow> t \<le> t')"
    by (rule promiseAny_first_success)
next
  show "(\<exists>t es. promiseAny ps = (t, Rejected es)) \<longleftrightarrow> (\<forall>p \<in> set ps. isRejected p)"
    by (rule promiseAny_rejects_iff)
next
  show "\<exists>t es. promiseAny ([] :: ('a, 'e) promise list) = (t, Rejected es)"
    by (simp add: promiseAny_def Promise_all_def)
qed

theorem promiseAny_first_success_or_all_fail_witness:
  "(\<exists>p \<in> set [(1, Rejected ''a''), (2, Fulfilled ''x''), (3, Rejected ''b'')]. isFulfilled p) \<and>
   promiseAny [(1, Rejected ''a''), (2, Fulfilled ''x''), (3, Rejected ''b'')] = (2, Fulfilled ''x'') \<and>
   list_all isRejected [(1, Rejected ''a''), (2 :: nat, Rejected ''b'' :: (string, string) settled)] \<and>
   promiseAny [(1, Rejected ''a''), (2, Rejected ''b'' :: (string, string) settled)]
     = (2, Rejected [''a'', ''b'']) \<and>
   promiseAny ([] :: (string, string) promise list) = (0, Rejected [])"
proof -
  let ?ps = "[(1, Rejected ''a''), (2, Fulfilled ''x''), (3 :: nat, Rejected ''b'' :: (string, string) settled)]"
  let ?qs = "[(1, Rejected ''a''), (2 :: nat, Rejected ''b'' :: (string, string) settled)]"
  have f: "\<exists>p \<in> set ?ps. isFulfilled p"
    by (simp add: isFulfilled_iff)
  have r: "\<forall>p \<in> set ?qs. isRejected p"
    by (simp add: isRejected_iff)
  from promiseAny_first_success_or_all_fail [of ?ps] f
  obtain t v where "promiseAny ?ps = (t, Fulfilled v)" "(t, Fulfilled v) \<in> set ?ps"
    by blast
  then have 1: "promiseAny ?ps = (2, Fulfilled ''x'')"
    by auto
  from promiseAny_first_success_or_all_fail [of ?qs] r
  obtain t es where "promiseAny ?qs = (t, Rejected es)"
    by blast
  then have 2: "promiseAny ?qs = (2, Rejected [''a'', ''b''])"
    by (simp add: promiseAny_def Promise_all_def)
  have 3: "promiseAny ([] :: (string, string) promise list) = (0, Rejected [])"
    by (simp add: promiseAny_def Promise_all_def)
  from r have r': "list_all isRejected ?qs"
    by (simp only: list_all_iff)
  from f r' 1 2 3 show ?thesis by blast
qed

subsection \<open>Metadata in the shape of a JSON schema\<close>

lemma bindE_Inr: "bindE (Inr v) f = f v"
  by (simp add: bindE_def)

lemma andE_Inr: "andE (Inr a) (Inr b) = Inr (a \<and> b)"
  by (simp add: andE_def bindE_def)

lemma lookupPath_JUndefined:
  "(case lookupPath JUndefined ks of None \<Rightarrow> JUndefined | Some w \<Rightarrow> w) = JUndefined"
  by (cases ks) simp_all

lemma optionalPath_lookupPath:
  "optionalPath v ks = Inr (case lookupPath v ks of None \<Rightarrow> JUndefined | Some w \<Rightarrow> w)"
proof (induction ks arbitrary: v)
  case Nil
  then show ?case by simp
next
  case (Cons k ks)
  show ?case
  proof (cases v)
    case (JObj kvs)
    then show ?thesis
      by (cases "map_of kvs k")
        (simp_all add: optionalMember_def bindE_def Cons.IH lookupPath_JUndefined)
  qed (simp_all add: optionalMember_def bindE_def Cons.IH lookupPath_JUndefined)
qed

lemma schemaField_JObj:
  "schemaField (JObj kvs) k f =
     Inr (case lookupPath (JObj kvs) [''properties'', k, f] of None \<Rightarrow> JUndefined | Some w \<Rightarrow> w)"
proof (cases "map_of kvs ''properties''")
  case None
  then show ?thesis
    by (simp add: schemaField_def bindE_def optionalMember_def)
next
  case (Some p)
  then show ?thesis
    unfolding schemaField_def by (simp add: bindE_Inr optionalPath_lookupPath)
qed

lemma typeof_string_iff: "typeof v = ''string'' \<longleftrightarrow> (\<exists>d. v = JStr d)"
  by (cases v) simp_all

lemma lookupPath_JObj_Some:
  "lookupPath v (k # ks) = Some w \<longleftrightarrow>
     (\<exists>kvs u. v = JObj kvs \<and> map_of kvs k = Some u \<and> lookupPath u ks = Some w)"
  by (cases v) (auto split: option.splits)

lemma hasStringSchema_iff:
  "(\<exists>props. map_of kvs ''properties'' = Some (JObj props) \<and> hasStringSchema props k) \<longleftrightarrow>
     (\<exists>d. lookupPath (JObj kvs) [''properties'', k, ''description''] = Some (JStr d)) \<and>
     lookupPath (JObj kvs) [''properties'', k, ''type''] = Some (JStr ''string'')"
  unfolding hasStringSchema_def lookupPath_JObj_Some
  by (auto simp: lookupPath_JObj_Some)

lemma field_value_iff:
  "(case lookupPath v ks of None \<Rightarrow> JUndefined | Some w \<Rightarrow> w) = JStr s \<longleftrightarrow> lookupPath v ks = Some (JStr s)"
  by (cases "lookupPath v ks") auto

lemma isNftMetadataMixedInJsonSchema_JObj:
  "isNftMetadataMixedInJsonSchema (JObj kvs) = Inr (isSchemaShaped (JObj kvs))"
proof -
  let ?f = "\<lambda>k f. case lookupPath (JObj kvs) [''properties'', k, f] of None \<Rightarrow> JUndefined | Some w \<Rightarrow> w"
  let ?m = "\<lambda>k. case map_of kvs k of None \<Rightarrow> JUndefined | Some v \<Rightarrow> v"
  have c: "isNftMetadataMixedInJsonSchema (JObj kvs) =
      Inr (?m ''title'' = JStr ''Asset Metadata'' \<and> ?m ''type'' = JStr ''object'' \<and>
           typeof (?f ''name'' ''description'') = ''string'' \<and>
           typeof (?f ''image'' ''description'') = ''string'' \<and>
           typeof (?f ''description'' ''description'') = ''string'' \<and>
           ?f ''name'' ''type'' = JStr ''string'' \<and>
           ?f ''image'' ''type'' = JStr ''string'' \<and>
           ?f ''description'' ''type'' = JStr ''string'')"
    unfolding isNftMetadataMixedInJsonSchema_def schemaField_JObj
    by (simp only: truthy.simps typeof.simps member.simps bindE_Inr andE_Inr simp_thms if_False)
  have m: "\<And>k s. ?m k = JStr s \<longleftrightarrow> map_of kvs k = Some (JStr s)"
    by (simp split: option.splits)
  have s: "isSchemaShaped (JObj kvs) \<longleftrightarrow>
      map_of kvs ''title'' = Some (JStr ''Asset Metadata'') \<and> map_of kvs ''type'' = Some (JStr ''object'') \<and>
      (\<exists>props. map_of kvs ''properties'' = Some (JObj props) \<and> hasStringSchema props ''name'') \<and>
      (\<exists>props. map_of kvs ''properties'' = Some (JObj props) \<and> hasStringSchema props ''image'') \<and>
      (\<exists>props. map_of kvs ''properties'' = Some (JObj props) \<and> hasStringSchema props ''description'')"
    unfolding isSchemaShaped_def by auto
  show ?thesis
    unfolding c s hasStringSchema_iff typeof_string_iff m field_value_iff
    by auto
qed

lemma isNftMetadataMixedInJsonSchema_shape:
  "isNftMetadataMixedInJsonSchema data = Inr (isSchemaShaped data)"
proof (cases data)
  case (JObj kvs)
  then show ?thesis by (simp only: isNftMetadataMixedInJsonSchema_JObj)
next
  case (JArr vs)
  then show ?thesis
    by (simp add: isNftMetadataMixedInJsonSchema_def isSchemaShaped_def andE_def bindE_def)
qed (simp_all add: isNftMetadataMixedInJsonSchema_def isSchemaShaped_def)

lemma fixNftMetadataMixedInJsonSchema_fields:
  "fixNftMetadataMixedInJsonSchema data =
     Inr \<lparr>name = descriptionOrEmpty data ''name'',
          description = descriptionOrEmpty data ''description'',
          image' = descriptionOrEmpty data ''image''\<rparr>"
proof -
  have "\<And>k. logicalOr (case lookupPath data [''properties'', k, ''description''] of
                         None \<Rightarrow> JUndefined | Some w \<Rightarrow> w) (JStr '''') = descriptionOrEmpty data k"
    by (simp add: logicalOr_def descriptionOrEmpty_def split: option.splits)
  then show ?thesis
    unfolding fixNftMetadataMixedInJsonSchema_def optionalPath_lookupPath bindE_Inr
    by simp
qed

text \<open>
  C6, as the code has it. \<^verbatim>\<open>isNftMetadataMixedInJsonSchema\<close> returns, without
  throwing, whether the data is an object with \<^verbatim>\<open>title\<close> \<^verbatim>\<open>"Asset Metadata"\<close>,
  \<^verbatim>\<open>type\<close> \<^verbatim>\<open>"object"\<close> and \<^verbatim>\<open>properties.name\<close>, \<^verbatim>\<open>properties.image\<close>,
  \<^verbatim>\<open>properties.description\<close> each present with \<^verbatim>\<open>type\<close> \<^verbatim>\<open>"string"\<close> and a string
  \<^verbatim>\<open>description\<close>. For every input, \<^verbatim>\<open>fixNftMetadataMixedInJsonSchema\<close> returns the
  record whose \<^verbatim>\<open>name\<close>, \<^verbatim>\<open>description\<close> and \<^verbatim>\<open>image\<close> are the corresponding
  \<^verbatim>\<open>properties.*.description\<close> values, with the empty string in place of any that is
  missing or falsy (\<^verbatim>\<open>undefined\<close>, \<^verbatim>\<open>null\<close>, \<^verbatim>\<open>false\<close>, \<^verbatim>\<open>0\<close>, the empty
  string).
\<close>

theorem schema_shaped_metadata:
  "isNftMetadataMixedInJsonSchema data = Inr (isSchemaShaped data) \<and>
   fixNftMetadataMixedInJsonSchema data =
     Inr \<lparr>name = descriptionOrEmpty data ''name'',
          description = descriptionOrEmpty data ''description'',
          image' = descriptionOrEmpty data ''image''\<rparr>"
  by (simp only: isNftMetadataMixedInJsonSchema_shape fixNftMetadataMixedInJsonSchema_fields simp_thms)

theorem schema_shaped_metadata_witness:
  "isNftMetadataMixedInJsonSchema
     (JObj [(''title'', JStr ''Asset Metadata''), (''type'', JStr ''object''),
            (''properties'', JObj
               [(''name'', JObj [(''type'', JStr ''string''), (''description'', JStr ''Token'')]),
                (''description'', JObj [(''type'', JStr ''string''), (''description'', JStr ''A token'')]),
                (''image'', JObj [(''type'', JStr ''string''), (''description'', JStr ''a.png'')])])]) =
     Inr True \<and>
   fixNftMetadataMixedInJsonSchema
     (JObj [(''title'', JStr ''Asset Metadata''), (''type'', JStr ''object''),
            (''properties'', JObj
               [(''name'', JObj [(''type'', JStr ''string''), (''description'', JStr ''Token'')]),
                (''description'', JObj [(''type'', JStr ''string''), (''description'', JStr ''A token'')]),
                (''image'', JObj [(''type'', JStr ''string''), (''description'', JStr ''a.png'')])])]) =
     Inr \<lparr>name = JStr ''Token'', description = JStr ''A token'', image' = JStr ''a.png''\<rparr> \<and>
   isNftMetadataMixedInJsonSchema (JObj [(''name'', JStr ''Token'')]) = Inr False \<and>
   fixNftMetadataMixedInJsonSchema (JObj [(''name'', JStr ''Token'')]) =
     Inr \<lparr>name = JStr [], description = JStr [], image' = JStr []\<rparr>"
proof -
  let ?d = "JObj [(''title'', JStr ''Asset Metadata''), (''type'', JStr ''object''),
            (''properties'', JObj
               [(''name'', JObj [(''type'', JStr ''string''), (''description'', JStr ''Token'')]),
                (''description'', JObj [(''type'', JStr ''string''), (''description'', JStr ''A token'')]),
                (''image'', JObj [(''type'', JStr ''string''), (''description'', JStr ''a.png'')])])]"
  let ?e = "JObj [(''name'', JStr ''Token'')]"
  have s: "isSchemaShaped ?d" "\<not> isSchemaShaped ?e"
    by (simp_all add: isSchemaShaped_def hasStringSchema_def)
  have f: "descriptionOrEmpty ?d ''name'' = JStr ''Token''"
    "descriptionOrEmpty ?d ''description'' = JStr ''A token''"
    "descriptionOrEmpty ?d ''image'' = JStr ''a.png''"
    "descriptionOrEmpty ?e ''name'' = JStr []"
    "descriptionOrEmpty ?e ''description'' = JStr []"
    "descriptionOrEmpty ?e ''image'' = JStr []"
    by (simp_all add: descriptionOrEmpty_def)
  from schema_shaped_metadata [of ?d] schema_shaped_metadata [of ?e] s f
  show ?thesis by simp
qed

text \<open>
  A description that is present and falsy is not returned: on
  \<^verbatim>\<open>{"properties": {"name": {"description": false}}}\<close> the name is the empty string.
\<close>

theorem fixNftMetadataMixedInJsonSchema_falsy_counterexample:
  "fixNftMetadataMixedInJsonSchema
       (JObj [(''properties'', JObj [(''name'', JObj [(''description'', JBool False)])])]) \<noteq>
     Inr \<lparr>name = descriptionOrMissing
                   (JObj [(''properties'', JObj [(''name'', JObj [(''description'', JBool False)])])]) ''name'',
          description = descriptionOrMissing
                   (JObj [(''properties'', JObj [(''name'', JObj [(''description'', JBool False)])])]) ''description'',
          image' = descriptionOrMissing
                   (JObj [(''properties'', JObj [(''name'', JObj [(''description'', JBool False)])])]) ''image''\<rparr>"
  by (simp add: fixNftMetadataMixedInJsonSchema_def optionalMember_def bindE_def logicalOr_def
      descriptionOrMissing_def)

subsection \<open>\<^verbatim>\<open>normalizeNftMetadata\<close>\<close>

text \<open>
  C7. \<^verbatim>\<open>normalizeNftMetadata\<close> returns the record with \<^verbatim>\<open>image\<close> replaced by
  \<^verbatim>\<open>ipfsUrl(image)\<close>; \<^verbatim>\<open>name\<close>, \<^verbatim>\<open>description\<close> and every further field are
  those of the input.
\<close>

theorem normalizeNftMetadata_frame:
  "image' (normalizeNftMetadata data) = ipfsUrl (image' data) ipfsUrlDefault \<and>
   name (normalizeNftMetadata data) = name data \<and>
   description (normalizeNftMetadata data) = description data \<and>
   NftMetadata.more (normalizeNftMetadata data) = NftMetadata.more data"
  by (simp add: normalizeNftMetadata_def normalizeImageUrl_def)

theorem normalizeNftMetadata_frame_witness:
  "normalizeNftMetadata
     \<lparr>name = ''Token'', description = ''A token'',
      image' = ''QmNt5T9HSXKLXZ3kmciU4Tm6q9R8JEm5ifJkPoxapjyRUR'', \<dots> = ''extra''\<rparr> =
     \<lparr>name = ''Token'', description = ''A token'',
      image' = ''https://ipfs.io/ipfs/QmNt5T9HSXKLXZ3kmciU4Tm6q9R8JEm5ifJkPoxapjyRUR'', \<dots> = ''extra''\<rparr>"
proof -
  let ?d = "\<lparr>name = ''Token'', description = ''A token'',
      image' = ''QmNt5T9HSXKLXZ3kmciU4Tm6q9R8JEm5ifJkPoxapjyRUR'', \<dots> = ''extra''\<rparr>"
  have b: "isBareCid ''QmNt5T9HSXKLXZ3kmciU4Tm6q9R8JEm5ifJkPoxapjyRUR''"
    by (simp add: isBareCid_def isBase58_def inRange_def)
  have i: "ipfsUrl (image' ?d) ipfsUrlDefault =
      ''https://ipfs.io/ipfs/QmNt5T9HSXKLXZ3kmciU4Tm6q9R8JEm5ifJkPoxapjyRUR''"
    by (simp add: ipfsUrl_bare [OF b] ipfsUrlDefault_def)
  from normalizeNftMetadata_frame [of ?d] i show ?thesis
    by (cases "normalizeNftMetadata ?d") simp
qed

subsection \<open>\<^verbatim>\<open>frameImage\<close>\<close>


lemma paddingPixels_neg:
  "paddingOf options < 0 \<Longrightarrow>
     paddingPixels img options =
       min (scaledWidth img options) (scaledHeight img options) * paddingOf options"
  by (simp add: paddingPixels_def min_mult_distrib_right)





subsection \<open>Replacement templates\<close>

lemma getSubstitution_no_dollar:
  "CHR ''$'' \<notin> set template \<Longrightarrow> getSubstitution matched before after template = template"
  by (induction matched before after template rule: getSubstitution.induct) auto

lemma getSubstitution_matched: "getSubstitution matched before after ''$&'' = matched"
  by simp

lemma stripPrefix_tl:
  assumes "stripPrefix pat (c # cs) = Some after" and "pat \<noteq> []"
  shows "pat @ drop (length pat - 1) cs = c # cs"
proof -
  from assms(1) have e: "c # cs = pat @ after" by (simp add: stripPrefix_Some_iff)
  with assms(2) obtain ps where p: "pat = c # ps" by (cases pat) auto
  with e have "cs = ps @ after" by simp
  with p e show ?thesis by simp
qed

lemma replaceFrom_matched_template:
  "pat \<noteq> [] \<Longrightarrow> replaceFrom pat ''$&'' n before s = drop n s"
proof (induction s arbitrary: n before)
  case Nil
  then show ?case by simp
next
  case (Cons c cs)
  show ?case
  proof (cases n)
    case (Suc m)
    with Cons show ?thesis by simp
  next
    case 0
    show ?thesis
    proof (cases "stripPrefix pat (c # cs)")
      case None
      with 0 Cons show ?thesis by simp
    next
      case (Some after)
      from stripPrefix_tl [OF Some Cons.prems] 0 Some Cons show ?thesis by simp
    qed
  qed
qed

lemma replaceGlobal_matched_template: "pat \<noteq> [] \<Longrightarrow> replaceGlobal s pat ''$&'' = s"
  by (simp add: replaceGlobal_def replaceFrom_matched_template)

subsection \<open>\<^verbatim>\<open>normalizeOpenSeaUrl\<close>\<close>

lemma normalizeOpenSeaUrl_unparsable:
  "URL_new api url = None \<Longrightarrow> normalizeOpenSeaUrl api url tokenId = url"
  by (simp add: normalizeOpenSeaUrl_def)

lemma normalizeOpenSeaUrl_other:
  assumes "URL_new api url = Some u"
    and "URL_host api u \<noteq> ''api.opensea.io'' \<or> \<not> includes_str (URL_pathname api u) ID_PLACEHOLDER"
  shows "normalizeOpenSeaUrl api url tokenId = url"
  using assms by (auto simp: normalizeOpenSeaUrl_def)

lemma normalizeOpenSeaUrl_rewrite:
  assumes "URL_new api url = Some u" and "URL_host api u = ''api.opensea.io''"
    and "includes_str (URL_pathname api u) ID_PLACEHOLDER"
  shows "normalizeOpenSeaUrl api url tokenId =
     URL_toString api (URL_searchParams_set api
       (URL_set_pathname api u (replaceGlobal (URL_pathname api u) ID_PLACEHOLDER tokenId))
       ''format'' ''json'')"
  using assms by (simp add: normalizeOpenSeaUrl_def)

lemma replaceFrom_literal:
  "CHR ''$'' \<notin> set tokenId \<Longrightarrow>
     replaceFrom pat tokenId n before s = replaceEvery pat tokenId n s"
proof (induction s arbitrary: n before)
  case Nil
  then show ?case by simp
next
  case (Cons c cs)
  then show ?case
    by (cases n) (auto simp: getSubstitution_no_dollar split: option.splits)
qed

lemma normalizeOpenSeaUrl_literal_token:
  assumes "URL_new api url = Some u" and "URL_host api u = ''api.opensea.io''"
    and "includes_str (URL_pathname api u) ID_PLACEHOLDER"
    and "CHR ''$'' \<notin> set tokenId"
  shows "normalizeOpenSeaUrl api url tokenId =
     URL_toString api (URL_searchParams_set api
       (URL_set_pathname api u (replaceEvery ID_PLACEHOLDER tokenId 0 (URL_pathname api u)))
       ''format'' ''json'')"
  using normalizeOpenSeaUrl_rewrite [OF assms(1-3), of tokenId] assms(4)
  by (simp add: replaceGlobal_def replaceFrom_literal)

lemma plainUrl_opensea:
  "plainUrl_new ''https://api.opensea.io/api/v1/asset/0x%7Bid%7D'' =
     Some \<lparr>hostOf = ''api.opensea.io'', pathOf = ''/api/v1/asset/0x%7Bid%7D'', searchOf = []\<rparr>"
  by (simp add: plainUrl_new_def isPlainHost_def isPlainPath_def isAlphaNum_def inRange_def)

lemma normalizeOpenSeaUrl_example:
  "normalizeOpenSeaUrl plainUrlClass ''https://api.opensea.io/api/v1/asset/0x%7Bid%7D'' ''42'' =
     ''https://api.opensea.io/api/v1/asset/42?format=json''"
  by (simp add: normalizeOpenSeaUrl_def plainUrlClass_def plainUrl_opensea ID_PLACEHOLDER_def
      replaceGlobal_def plainUrl_toString_def isPlainPath_def isAlphaNum_def inRange_def)

text \<open>
  C4, at the token id \<^verbatim>\<open>$&\<close>. Whenever the URL parses, its host is
  \<^verbatim>\<open>api.opensea.io\<close> and its path contains the placeholder, \<^verbatim>\<open>normalizeOpenSeaUrl\<close>
  sets the pathname to what it was: the token id is read as a replacement template, in which
  \<^verbatim>\<open>$&\<close> stands for the matched placeholder, so that no occurrence is replaced by the
  token id.
\<close>

theorem normalizeOpenSeaUrl_template_token:
  assumes "URL_new api url = Some u" and "URL_host api u = ''api.opensea.io''"
    and "includes_str (URL_pathname api u) ID_PLACEHOLDER"
  shows "normalizeOpenSeaUrl api url ''$&'' =
     URL_toString api (URL_searchParams_set api (URL_set_pathname api u (URL_pathname api u))
       ''format'' ''json'')"
proof -
  have "replaceGlobal (URL_pathname api u) ID_PLACEHOLDER ''$&'' = URL_pathname api u"
    by (rule replaceGlobal_matched_template) (simp add: ID_PLACEHOLDER_def)
  with normalizeOpenSeaUrl_rewrite [OF assms, of "''$&''"] show ?thesis by simp
qed

theorem normalizeOpenSeaUrl_template_token_witness:
  "URL_new plainUrlClass ''https://api.opensea.io/api/v1/asset/0x%7Bid%7D'' =
     Some \<lparr>hostOf = ''api.opensea.io'', pathOf = ''/api/v1/asset/0x%7Bid%7D'', searchOf = []\<rparr> \<and>
   includes_str ''/api/v1/asset/0x%7Bid%7D'' ID_PLACEHOLDER \<and>
   normalizeOpenSeaUrl plainUrlClass ''https://api.opensea.io/api/v1/asset/0x%7Bid%7D'' ''$&'' =
     ''https://api.opensea.io/api/v1/asset/0x%7Bid%7D?format=json''"
proof -
  let ?u = "\<lparr>hostOf = ''api.opensea.io'', pathOf = ''/api/v1/asset/0x%7Bid%7D'', searchOf = []\<rparr>"
  have n: "URL_new plainUrlClass ''https://api.opensea.io/api/v1/asset/0x%7Bid%7D'' = Some ?u"
    by (simp add: plainUrlClass_def plainUrl_opensea)
  have h: "URL_host plainUrlClass ?u = ''api.opensea.io''"
    by (simp add: plainUrlClass_def)
  have i: "includes_str ''/api/v1/asset/0x%7Bid%7D'' ID_PLACEHOLDER"
    by (simp add: ID_PLACEHOLDER_def)
  then have i': "includes_str (URL_pathname plainUrlClass ?u) ID_PLACEHOLDER"
    by (simp add: plainUrlClass_def)
  have "normalizeOpenSeaUrl plainUrlClass ''https://api.opensea.io/api/v1/asset/0x%7Bid%7D'' ''$&'' =
     ''https://api.opensea.io/api/v1/asset/0x%7Bid%7D?format=json''"
    unfolding normalizeOpenSeaUrl_template_token [OF n h i']
    by (simp add: plainUrlClass_def plainUrl_toString_def isPlainPath_def isAlphaNum_def inRange_def)
  with n i show ?thesis by blast
qed

subsection \<open>\<^verbatim>\<open>normalizeNiftyGatewayUrl\<close>\<close>

lemma normalizeNiftyGatewayUrl_append:
  assumes "URL_new api url = Some u" and "URL_host api u = ''api.niftygateway.com''"
  shows "normalizeNiftyGatewayUrl api url =
     URL_toString api (URL_set_pathname api u (URL_pathname api u @ ''/''))"
  using assms by (simp add: normalizeNiftyGatewayUrl_def)

text \<open>
  C9. On every parseable URL whose host is \<^verbatim>\<open>api.niftygateway.com\<close>,
  \<^verbatim>\<open>normalizeNiftyGatewayUrl\<close> sets the pathname to the old one followed by a slash,
  whether or not it already ends with one. Hence it is not idempotent: when the URL class
  gives back, on parsing what it serialised, the host and the pathname that were set (first
  the pathname with one more slash, then with two), the second application differs from the
  first, its path ending in two slashes.
\<close>

theorem normalizeNiftyGatewayUrl_not_idempotent:
  assumes "URL_new api url = Some u" and "URL_host api u = ''api.niftygateway.com''"
  shows "normalizeNiftyGatewayUrl api url =
           URL_toString api (URL_set_pathname api u (URL_pathname api u @ ''/'')) \<and>
         (reparse api u (URL_pathname api u @ ''/'') = Some v \<and>
          URL_host api v = ''api.niftygateway.com'' \<and>
          URL_pathname api v = URL_pathname api u @ ''/'' \<and>
          reparse api v (URL_pathname api u @ ''//'') = Some w \<and>
          URL_pathname api w = URL_pathname api u @ ''//'' \<longrightarrow>
            normalizeNiftyGatewayUrl api (normalizeNiftyGatewayUrl api url) =
              URL_toString api (URL_set_pathname api v (URL_pathname api u @ ''//'')) \<and>
            normalizeNiftyGatewayUrl api (normalizeNiftyGatewayUrl api url) \<noteq>
              normalizeNiftyGatewayUrl api url)"
proof (intro conjI impI)
  show 1: "normalizeNiftyGatewayUrl api url =
      URL_toString api (URL_set_pathname api u (URL_pathname api u @ ''/''))"
    by (rule normalizeNiftyGatewayUrl_append [OF assms])
  assume r: "reparse api u (URL_pathname api u @ ''/'') = Some v \<and>
          URL_host api v = ''api.niftygateway.com'' \<and>
          URL_pathname api v = URL_pathname api u @ ''/'' \<and>
          reparse api v (URL_pathname api u @ ''//'') = Some w \<and>
          URL_pathname api w = URL_pathname api u @ ''//''"
  then have v: "URL_new api (normalizeNiftyGatewayUrl api url) = Some v"
    unfolding 1 by (simp add: reparse_def)
  from normalizeNiftyGatewayUrl_append [OF v] r
  show 2: "normalizeNiftyGatewayUrl api (normalizeNiftyGatewayUrl api url) =
      URL_toString api (URL_set_pathname api v (URL_pathname api u @ ''//''))"
    by simp
  show "normalizeNiftyGatewayUrl api (normalizeNiftyGatewayUrl api url) \<noteq> normalizeNiftyGatewayUrl api url"
  proof
    assume "normalizeNiftyGatewayUrl api (normalizeNiftyGatewayUrl api url) = normalizeNiftyGatewayUrl api url"
    then have "URL_new api (URL_toString api (URL_set_pathname api v (URL_pathname api u @ ''//''))) = Some v"
      unfolding 2 using v by simp
    with r have "w = v" by (simp add: reparse_def)
    with r have "URL_pathname api u @ ''/'' = URL_pathname api u @ ''//''" by metis
    then show False by simp
  qed
qed

lemma plainUrl_nifty:
  "plainUrl_new ''https://api.niftygateway.com/path'' =
     Some \<lparr>hostOf = ''api.niftygateway.com'', pathOf = ''/path'', searchOf = []\<rparr>"
  "plainUrl_new ''https://api.niftygateway.com/path/'' =
     Some \<lparr>hostOf = ''api.niftygateway.com'', pathOf = ''/path/'', searchOf = []\<rparr>"
  "plainUrl_new ''https://api.niftygateway.com/path//'' =
     Some \<lparr>hostOf = ''api.niftygateway.com'', pathOf = ''/path//'', searchOf = []\<rparr>"
  by (simp_all add: plainUrl_new_def isPlainHost_def isPlainPath_def isAlphaNum_def inRange_def)

theorem normalizeNiftyGatewayUrl_not_idempotent_witness:
  "URL_new plainUrlClass ''https://api.niftygateway.com/path'' =
     Some \<lparr>hostOf = ''api.niftygateway.com'', pathOf = ''/path'', searchOf = []\<rparr> \<and>
   normalizeNiftyGatewayUrl plainUrlClass ''https://api.niftygateway.com/path'' =
     ''https://api.niftygateway.com/path/'' \<and>
   normalizeNiftyGatewayUrl plainUrlClass
       (normalizeNiftyGatewayUrl plainUrlClass ''https://api.niftygateway.com/path'') =
     ''https://api.niftygateway.com/path//'' \<and>
   normalizeNiftyGatewayUrl plainUrlClass
       (normalizeNiftyGatewayUrl plainUrlClass ''https://api.niftygateway.com/path'') \<noteq>
     normalizeNiftyGatewayUrl plainUrlClass ''https://api.niftygateway.com/path''"
proof -
  let ?s = "''https://api.niftygateway.com/path''"
  let ?u = "\<lparr>hostOf = ''api.niftygateway.com'', pathOf = ''/path'', searchOf = []\<rparr>"
  let ?v = "\<lparr>hostOf = ''api.niftygateway.com'', pathOf = ''/path/'', searchOf = []\<rparr>"
  let ?w = "\<lparr>hostOf = ''api.niftygateway.com'', pathOf = ''/path//'', searchOf = []\<rparr>"
  have pp: "isPlainPath ''/path/''" "isPlainPath ''/path//''"
    by (simp_all add: isPlainPath_def isAlphaNum_def inRange_def)
  have n: "URL_new plainUrlClass ?s = Some ?u"
    by (simp add: plainUrlClass_def plainUrl_nifty)
  have h: "URL_host plainUrlClass ?u = ''api.niftygateway.com''"
    by (simp add: plainUrlClass_def)
  have s1: "URL_toString plainUrlClass (URL_set_pathname plainUrlClass ?u (URL_pathname plainUrlClass ?u @ ''/''))
      = ''https://api.niftygateway.com/path/''"
    using pp by (simp add: plainUrlClass_def plainUrl_toString_def)
  have s2: "URL_toString plainUrlClass (URL_set_pathname plainUrlClass ?v (URL_pathname plainUrlClass ?u @ ''//''))
      = ''https://api.niftygateway.com/path//''"
    using pp by (simp add: plainUrlClass_def plainUrl_toString_def)
  have r: "reparse plainUrlClass ?u (URL_pathname plainUrlClass ?u @ ''/'') = Some ?v \<and>
      URL_host plainUrlClass ?v = ''api.niftygateway.com'' \<and>
      URL_pathname plainUrlClass ?v = URL_pathname plainUrlClass ?u @ ''/'' \<and>
      reparse plainUrlClass ?v (URL_pathname plainUrlClass ?u @ ''//'') = Some ?w \<and>
      URL_pathname plainUrlClass ?w = URL_pathname plainUrlClass ?u @ ''//''"
    unfolding reparse_def s1 s2 by (simp add: plainUrlClass_def plainUrl_nifty)
  from normalizeNiftyGatewayUrl_not_idempotent [OF n h, of ?v ?w] r
  have "normalizeNiftyGatewayUrl plainUrlClass ?s = ''https://api.niftygateway.com/path/''"
    "normalizeNiftyGatewayUrl plainUrlClass (normalizeNiftyGatewayUrl plainUrlClass ?s) =
       ''https://api.niftygateway.com/path//''"
    "normalizeNiftyGatewayUrl plainUrlClass (normalizeNiftyGatewayUrl plainUrlClass ?s) \<noteq>
       normalizeNiftyGatewayUrl plainUrlClass ?s"
    unfolding s1 s2 by blast+
  with n show ?thesis by blast
qed

end
